theory Spec2Isabelle
  imports Complex_Main "HOL-Library.AList"
begin

section \<open>JavaScript values, exceptions and the engine\<close>

text \<open>
  The values that cross the channels of the extension: JSON data, \<open>undefined\<close>, and
  objects of the host (DOM nodes, windows, functions), which the structured clone of
  \<open>postMessage\<close> refuses. The finite numbers are idealised as rationals; \<open>NaN\<close> and the two
  infinities are values of their own (\<open>JSON.parse\<close> reads the text \<open>1e999\<close> as
  \<open>Infinity\<close>).
\<close>

datatype jsval =
    JUndefined
  | JNull
  | JBool bool
  | JNum rat
  | JNaN
  | JInfinity
  | JMinusInfinity
  | JStr string
  | JArr "jsval list"
  | JObj "(string \<times> jsval) list"
  | JHost string

text \<open>A thrown error object, with the two properties the sources read.\<close>

datatype exn = Exn (message: string) (stack: jsval)

text \<open>A number as arithmetic and comparison see it.\<close>

datatype number = NaN | Finite rat | PosInfinity | NegInfinity

text \<open>
  What the engine decides and the sources only use: the \<open>TypeError\<close> of \<open>v.name\<close> when
  \<open>v\<close> is \<open>null\<close> or \<open>undefined\<close> (or of the call \<open>v.name()\<close> when \<open>v.name\<close> is not a
  function), the \<open>DataCloneError\<close> of \<open>postMessage\<close>, the stack it attaches to
  \<open>new Error(m)\<close>, the coercions \<open>Number(v)\<close> of a string or an object and \<open>String(v)\<close>,
  the quotient \<open>t / 100\<close> of a finite number as the engine computes it (rounded to a
  double), and the number \<open>parseInt\<close> gives for a string of digits that stands for more
  than \<open>2 ^ 53\<close> (the value rounded to a double, \<open>Infinity\<close> when it is too large).
\<close>

record engine =
  type_error :: "jsval \<Rightarrow> string \<Rightarrow> exn"
  data_clone_error :: "jsval \<Rightarrow> exn"
  error_stack :: "string \<Rightarrow> jsval"
  to_number :: "jsval \<Rightarrow> number"
  to_string :: "jsval \<Rightarrow> string"
  hundredth :: "rat \<Rightarrow> rat"
  large_integer :: "string \<Rightarrow> jsval"

definition new_Error :: "engine \<Rightarrow> string \<Rightarrow> exn" where
  "new_Error E m = Exn m (error_stack E m)"

fun nullish :: "jsval \<Rightarrow> bool" where
  "nullish JUndefined = True"
| "nullish JNull = True"
| "nullish _ = False"

text \<open>\<open>!!v\<close>: what \<open>||\<close>, \<open>if\<close> and \<open>?.\<close> test.\<close>

fun truthy :: "jsval \<Rightarrow> bool" where
  "truthy JUndefined = False"
| "truthy JNull = False"
| "truthy (JBool b) = b"
| "truthy (JNum r) = (r \<noteq> 0)"
| "truthy JNaN = False"
| "truthy (JStr s) = (s \<noteq> [])"
| "truthy _ = True"

text \<open>
  \<open>v.name\<close> on a value that is not \<open>null\<close> or \<open>undefined\<close>, for the names the sources read
  (\<open>action\<close>, \<open>selector\<close>, \<open>type\<close>, \<open>id\<close>, ...): the own property of an object,
  \<open>undefined\<close> everywhere else.
\<close>

fun member :: "jsval \<Rightarrow> string \<Rightarrow> jsval" where
  "member (JObj fs) k = (case map_of fs k of Some v \<Rightarrow> v | None \<Rightarrow> JUndefined)"
| "member _ k = JUndefined"

text \<open>The number a command field stands for in arithmetic: \<open>Number(v)\<close>.\<close>

definition number_of :: "engine \<Rightarrow> jsval \<Rightarrow> number" where
  "number_of E v =
     (case v of
        JNum r \<Rightarrow> Finite r
      | JNaN \<Rightarrow> NaN
      | JInfinity \<Rightarrow> PosInfinity
      | JMinusInfinity \<Rightarrow> NegInfinity
      | JUndefined \<Rightarrow> NaN
      | JNull \<Rightarrow> Finite 0
      | JBool b \<Rightarrow> Finite (if b then 1 else 0)
      | _ \<Rightarrow> to_number E v)"

text \<open>\<open>t / 100\<close>: \<open>NaN\<close> and the infinities divide to themselves.\<close>

definition quotient_100 :: "engine \<Rightarrow> number \<Rightarrow> number" where
  "quotient_100 E t = (case t of Finite r \<Rightarrow> Finite (hundredth E r) | _ \<Rightarrow> t)"

text \<open>
  \<open>i < bound\<close> for a loop counter \<open>i\<close>: a comparison with \<open>NaN\<close> is false, every number
  is below \<open>Infinity\<close>.
\<close>

fun below :: "nat \<Rightarrow> number \<Rightarrow> bool" where
  "below i NaN = False"
| "below i (Finite b) = (of_nat i < b)"
| "below i PosInfinity = True"
| "below i NegInfinity = False"

section \<open>The page as the content script sees it\<close>

text \<open>
  An element of the document. \<open>has_click\<close>: the element has the method \<open>click\<close> (an HTML
  element has it, an SVG element does not).
\<close>

record element =
  node :: nat
  tagName :: string
  has_click :: bool
  el_id :: string
  className :: string
  textContent :: string
  innerHTML :: string
  el_value :: jsval
  el_content :: jsval
  attributes :: "(string \<times> string) list"

text \<open>
  The document at one moment. \<open>querySelector\<close> and \<open>querySelectorAll\<close> throw on a
  selector that is not valid; \<open>setValue\<close> is the setter of \<open>input.value\<close> (\<open>Some e\<close>:
  it throws \<open>e\<close>); \<open>getAttribute\<close> returns \<open>null\<close> for a missing attribute.
\<close>

record document =
  querySelector :: "jsval \<Rightarrow> exn + element option"
  querySelectorAll :: "jsval \<Rightarrow> exn + element list"
  setValue :: "element \<Rightarrow> jsval \<Rightarrow> exn option"
  getAttribute :: "element \<Rightarrow> jsval \<Rightarrow> jsval"

text \<open>What a handler does to the page, in order.\<close>

datatype effect =
    Click element
  | SetValue element jsval
  | DispatchEvent element string

section \<open>content.js: executeCommand\<close>

definition success_true :: jsval where
  "success_true = JObj [(''success'', JBool True)]"

definition timeout_result :: jsval where
  "timeout_result = JObj [(''success'', JBool False), (''error'', JStr ''Timeout'')]"

definition not_found_result :: jsval where
  "not_found_result = JObj [(''success'', JBool False), (''error'', JStr ''Element not found'')]"

definition unknown_action_result :: jsval where
  "unknown_action_result = JObj [(''error'', JStr ''Unknown action'')]"

text \<open>\<open>{ error: error.message, stack: error.stack }\<close>, the result of both catch blocks.\<close>

definition caught_result :: "exn \<Rightarrow> jsval" where
  "caught_result e = JObj [(''error'', JStr (message e)), (''stack'', stack e)]"

text \<open>
  The loop of \<open>waitForElement\<close>: attempt \<open>i\<close> looks the selector up in the document as it
  is after \<open>i\<close> sleeps of 100 ms (\<open>page i\<close>), while \<open>i < bound\<close>, where \<open>bound\<close> is the
  value of \<open>cmd.timeout / 100\<close>. It returns whether the element was found and the number
  of sleeps completed; \<open>None\<close>: the loop never ends.
\<close>

partial_function (option) waitForElement_loop ::
    "(nat \<Rightarrow> document) \<Rightarrow> jsval \<Rightarrow> number \<Rightarrow> nat \<Rightarrow> (exn + (bool \<times> nat)) option" where
  "waitForElement_loop page sel bound i =
     (if below i bound then
        (case querySelector (page i) sel of
           Inl e \<Rightarrow> Some (Inl e)
         | Inr None \<Rightarrow> waitForElement_loop page sel bound (i + 1)
         | Inr (Some el) \<Rightarrow> Some (Inr (True, i)))
      else Some (Inr (False, i)))"

text \<open>
  The body of the \<open>try\<close> of \<open>executeCommand\<close>, one definition per \<open>case\<close>. \<open>Inl e\<close>: the
  body throws \<open>e\<close>. \<open>page i\<close> is the document after \<open>i\<close> sleeps of 100 ms, \<open>page 0\<close> the
  document when the command starts. \<open>sandbox code\<close> is how the promise of
  \<open>window._sandboxBridge.execute(code)\<close> settles (\<open>Some (Inl e)\<close>: it rejects, or the call
  itself throws; \<open>None\<close>: it never settles). For the two cases that wait, \<open>None\<close>: the
  case never ends.
\<close>

definition case_click :: "engine \<Rightarrow> document \<Rightarrow> jsval \<Rightarrow> exn + (jsval \<times> effect list)" where
  "case_click E doc cmd =
     (case querySelector doc (member cmd ''selector'') of
        Inl e \<Rightarrow> Inl e
      | Inr None \<Rightarrow> Inr (success_true, [])
      | Inr (Some el) \<Rightarrow>
          (if has_click el then Inr (success_true, [Click el])
           else Inl (type_error E (JHost (tagName el)) ''click'')))"

definition case_getText :: "document \<Rightarrow> jsval \<Rightarrow> exn + (jsval \<times> effect list)" where
  "case_getText doc cmd =
     (case querySelector doc (member cmd ''selector'') of
        Inl e \<Rightarrow> Inl e
      | Inr None \<Rightarrow> Inr (JObj [(''text'', JUndefined)], [])
      | Inr (Some el) \<Rightarrow> Inr (JObj [(''text'', JStr (textContent el))], []))"

definition case_getAllText :: "document \<Rightarrow> jsval \<Rightarrow> exn + (jsval \<times> effect list)" where
  "case_getAllText doc cmd =
     (case querySelectorAll doc (member cmd ''selector'') of
        Inl e \<Rightarrow> Inl e
      | Inr els \<Rightarrow> Inr (JObj [(''texts'', JArr (map (\<lambda>el. JStr (textContent el)) els))], []))"

definition case_fillInput :: "document \<Rightarrow> jsval \<Rightarrow> exn + (jsval \<times> effect list)" where
  "case_fillInput doc cmd =
     (case querySelector doc (member cmd ''selector'') of
        Inl e \<Rightarrow> Inl e
      | Inr None \<Rightarrow> Inr (not_found_result, [])
      | Inr (Some input) \<Rightarrow>
          (case setValue doc input (member cmd ''value'') of
             Some e \<Rightarrow> Inl e
           | None \<Rightarrow>
               Inr (success_true,
                 [SetValue input (member cmd ''value''),
                  DispatchEvent input ''input'',
                  DispatchEvent input ''change''])))"

definition case_getAttribute :: "document \<Rightarrow> jsval \<Rightarrow> exn + (jsval \<times> effect list)" where
  "case_getAttribute doc cmd =
     (case querySelector doc (member cmd ''selector'') of
        Inl e \<Rightarrow> Inl e
      | Inr None \<Rightarrow> Inr (JObj [(''value'', JUndefined)], [])
      | Inr (Some el) \<Rightarrow>
          Inr (JObj [(''value'', getAttribute doc el (member cmd ''attribute''))], []))"

definition case_waitForElement ::
    "engine \<Rightarrow> (nat \<Rightarrow> document) \<Rightarrow> jsval \<Rightarrow> (exn + (jsval \<times> effect list)) option" where
  "case_waitForElement E page cmd =
     (case waitForElement_loop page (member cmd ''selector'')
             (quotient_100 E (number_of E (member cmd ''timeout''))) 0 of
        None \<Rightarrow> None
      | Some (Inl e) \<Rightarrow> Some (Inl e)
      | Some (Inr (found, sleeps)) \<Rightarrow>
          Some (Inr (if found then success_true else timeout_result, [])))"

definition case_custom ::
    "(jsval \<Rightarrow> (exn + jsval) option) \<Rightarrow> jsval \<Rightarrow> (exn + (jsval \<times> effect list)) option" where
  "case_custom sandbox cmd =
     (case sandbox (member cmd ''code'') of
        None \<Rightarrow> None
      | Some (Inl error) \<Rightarrow> Some (Inr (caught_result error, []))
      | Some (Inr sandboxResult) \<Rightarrow>
          Some (Inr (if truthy sandboxResult then sandboxResult else success_true, [])))"

definition switch_action ::
    "engine \<Rightarrow> (nat \<Rightarrow> document) \<Rightarrow> (jsval \<Rightarrow> (exn + jsval) option) \<Rightarrow> jsval
      \<Rightarrow> (exn + (jsval \<times> effect list)) option" where
  "switch_action E page sandbox cmd =
     (if nullish cmd then Some (Inl (type_error E cmd ''action''))
      else if member cmd ''action'' = JStr ''click'' then Some (case_click E (page 0) cmd)
      else if member cmd ''action'' = JStr ''getText'' then Some (case_getText (page 0) cmd)
      else if member cmd ''action'' = JStr ''getAllText'' then Some (case_getAllText (page 0) cmd)
      else if member cmd ''action'' = JStr ''fillInput'' then Some (case_fillInput (page 0) cmd)
      else if member cmd ''action'' = JStr ''getAttribute''
        then Some (case_getAttribute (page 0) cmd)
      else if member cmd ''action'' = JStr ''waitForElement'' then case_waitForElement E page cmd
      else if member cmd ''action'' = JStr ''custom'' then case_custom sandbox cmd
      else Some (Inr (unknown_action_result, [])))"

text \<open>
  \<open>executeCommand\<close>: the \<open>try\<close> and its \<open>catch\<close>. It returns the result and the effects;
  \<open>None\<close>: its promise never settles.
\<close>

definition executeCommand ::
    "engine \<Rightarrow> (nat \<Rightarrow> document) \<Rightarrow> (jsval \<Rightarrow> (exn + jsval) option) \<Rightarrow> jsval
      \<Rightarrow> (jsval \<times> effect list) option" where
  "executeCommand E page sandbox cmd =
     (case switch_action E page sandbox cmd of
        None \<Rightarrow> None
      | Some (Inl error) \<Rightarrow> Some (caught_result error, [])
      | Some (Inr r) \<Rightarrow> Some r)"

section \<open>content.js: the cookie channel\<close>

text \<open>
  \<open>String.prototype.split\<close> with a separator that is not empty: the text is cut at every
  occurrence of the separator, scanning from the left; \<open>cur\<close> is the piece being read.
\<close>

function js_split_from :: "string \<Rightarrow> string \<Rightarrow> string \<Rightarrow> string list" where
  "js_split_from sep cur [] = [cur]"
| "js_split_from sep cur (c # cs) =
     (if sep \<noteq> [] \<and> take (length sep) (c # cs) = sep
      then cur # js_split_from sep [] (drop (length sep) (c # cs))
      else js_split_from sep (cur @ [c]) cs)"
  by pat_completeness auto
termination
  by (relation "measure (\<lambda>(sep, cur, s). length s)") auto

definition js_split :: "string \<Rightarrow> string \<Rightarrow> string list" where
  "js_split sep s = (if sep = [] then map (\<lambda>c. [c]) s else js_split_from sep [] s)"

text \<open>\<open>s.startsWith(p)\<close>.\<close>

definition startsWith :: "string \<Rightarrow> string \<Rightarrow> bool" where
  "startsWith s p = (take (length p) s = p)"

text \<open>\<open>parts[i]\<close>: \<open>None\<close> is \<open>undefined\<close>, the read past the end of the array.\<close>

fun at_index :: "'a list \<Rightarrow> nat \<Rightarrow> 'a option" where
  "at_index [] i = None"
| "at_index (x # xs) 0 = Some x"
| "at_index (x # xs) (Suc i) = at_index xs i"

definition COMMAND_COOKIE :: string where "COMMAND_COOKIE = ''pw_cmd''"
definition RESULT_COOKIE :: string where "RESULT_COOKIE = ''pw_result''"
definition STATUS_COOKIE :: string where "STATUS_COOKIE = ''pw_status''"

text \<open>
  The cookies the page's document holds, all of path \<open>/\<close>: names and values in the order
  of the jar. Reading \<open>document.cookie\<close> gives the pairs \<open>name=value\<close> joined by \<open>; \<close>.
  Assigning \<open>name=value; path=/\<close> stores the cookie, unless the name and the value
  together are longer than 4096 bytes: the browser ignores such an assignment, silently.
  Assigning the cookie with an \<open>expires\<close> in the past removes it.
\<close>

type_synonym jar = "(string \<times> string) list"

fun join :: "string \<Rightarrow> string list \<Rightarrow> string" where
  "join sep [] = []"
| "join sep [x] = x"
| "join sep (x # y # ys) = x @ sep @ join sep (y # ys)"

definition cookie_row :: "string \<times> string \<Rightarrow> string" where
  "cookie_row c = fst c @ ''='' @ snd c"

definition document_cookie :: "jar \<Rightarrow> string" where
  "document_cookie jar = join ''; '' (map cookie_row jar)"

definition set_cookie :: "string \<Rightarrow> string \<Rightarrow> jar \<Rightarrow> jar" where
  "set_cookie name v jar =
     (if length name + length v \<le> 4096 then AList.update name v jar else jar)"

definition expire_cookie :: "string \<Rightarrow> jar \<Rightarrow> jar" where
  "expire_cookie name jar = AList.delete name jar"

text \<open>
  The two library compositions of the channel: \<open>JSON.parse(decodeURIComponent(encoded))\<close>
  (\<open>None\<close> is the argument \<open>undefined\<close>) and \<open>encodeURIComponent(JSON.stringify(result))\<close>.
  Both can throw.
\<close>

record codec =
  decode_parse :: "string option \<Rightarrow> exn + jsval"
  stringify_encode :: "jsval \<Rightarrow> exn + string"

text \<open>The first two lines of \<open>checkForCommands\<close>: the row of the command cookie.\<close>

definition find_command :: "jar \<Rightarrow> string option" where
  "find_command jar =
     find (\<lambda>row. startsWith row (COMMAND_COOKIE @ ''=''))
       (js_split ''; '' (document_cookie jar))"

text \<open>The \<open>catch\<close> of \<open>checkForCommands\<close>; \<open>Inl\<close>: the block itself throws.\<close>

definition errorResult :: "exn \<Rightarrow> jsval" where
  "errorResult error =
     JObj [(''error'', JStr ''Command parse error''), (''message'', JStr (message error))]"

definition catch_block :: "codec \<Rightarrow> exn \<Rightarrow> jar \<Rightarrow> exn + jar" where
  "catch_block C error jar =
     (case stringify_encode C (errorResult error) of
        Inl e \<Rightarrow> Inl e
      | Inr encoded \<Rightarrow>
          Inr (set_cookie STATUS_COOKIE ''error'' (set_cookie RESULT_COOKIE encoded jar)))"

text \<open>
  \<open>checkForCommands\<close> up to its \<open>await\<close>: no command; or the command does not parse and
  the \<open>catch\<close> has run; or the command is parsed, its cookie cleared and the status set,
  and \<open>executeCommand\<close> is about to start on the cookies given.
\<close>

datatype poll =
    NoCommand
  | ParseFailed "exn + jar"
  | Executing jsval jar

definition checkForCommands_start :: "codec \<Rightarrow> jar \<Rightarrow> poll" where
  "checkForCommands_start C jar =
     (case find_command jar of
        None \<Rightarrow> NoCommand
      | Some commandCookie \<Rightarrow>
          (case decode_parse C (at_index (js_split ''='' commandCookie) 1) of
             Inl error \<Rightarrow> ParseFailed (catch_block C error jar)
           | Inr command \<Rightarrow>
               Executing command
                 (set_cookie STATUS_COOKIE ''processing'' (expire_cookie COMMAND_COOKIE jar))))"

text \<open>
  \<open>checkForCommands\<close> after its \<open>await\<close>, on the cookies as they are when
  \<open>executeCommand\<close> has returned \<open>result\<close>.
\<close>

definition checkForCommands_finish :: "codec \<Rightarrow> jsval \<Rightarrow> jar \<Rightarrow> exn + jar" where
  "checkForCommands_finish C result jar =
     (case stringify_encode C result of
        Inl error \<Rightarrow> catch_block C error jar
      | Inr encodedResult \<Rightarrow>
          Inr (set_cookie STATUS_COOKIE ''done'' (set_cookie RESULT_COOKIE encodedResult jar)))"

text \<open>
  One run of \<open>checkForCommands\<close> during which nothing else writes a cookie. \<open>Some (Inl e)\<close>:
  the promise of the run rejects, the channel throws; \<open>None\<close>: the run never ends,
  because \<open>executeCommand\<close> does not.
\<close>

definition checkForCommands ::
    "codec \<Rightarrow> engine \<Rightarrow> (nat \<Rightarrow> document) \<Rightarrow> (jsval \<Rightarrow> (exn + jsval) option) \<Rightarrow> jar
      \<Rightarrow> (exn + (jar \<times> effect list)) option" where
  "checkForCommands C E page sandbox jar =
     (case checkForCommands_start C jar of
        NoCommand \<Rightarrow> Some (Inr (jar, []))
      | ParseFailed r \<Rightarrow> Some (case r of Inl e \<Rightarrow> Inl e | Inr jar' \<Rightarrow> Inr (jar', []))
      | Executing command jar1 \<Rightarrow>
          (case executeCommand E page sandbox command of
             None \<Rightarrow> None
           | Some (result, effects) \<Rightarrow>
               Some (case checkForCommands_finish C result jar1 of
                       Inl e \<Rightarrow> Inl e
                     | Inr jar2 \<Rightarrow> Inr (jar2, effects))))"

section \<open>Observations and examples\<close>

text \<open>
  What the lookup of attempt \<open>i\<close> of \<open>waitForElement\<close> gives: the element exists, or it
  does not (\<open>querySelector\<close> returns \<open>null\<close>).
\<close>

definition present :: "(nat \<Rightarrow> document) \<Rightarrow> jsval \<Rightarrow> nat \<Rightarrow> bool" where
  "present page sel i = (case querySelector (page i) sel of Inr (Some el) \<Rightarrow> True | _ \<Rightarrow> False)"

definition absent :: "(nat \<Rightarrow> document) \<Rightarrow> jsval \<Rightarrow> nat \<Rightarrow> bool" where
  "absent page sel i = (querySelector (page i) sel = Inr None)"

text \<open>
  An engine, an empty document and a document with one button, for the examples. The
  quotient of the engine is exact, as a browser's is for the timeouts of the examples;
  its coercion of strings and objects to numbers and its rounding of large integers are
  placeholders, which no example reaches.
\<close>

definition example_engine :: engine where
  "example_engine =
     \<lparr>type_error = (\<lambda>v k.
        if nullish v
        then Exn (''Cannot read properties of null (reading '' @ k @ '')'') (JStr ''TypeError'')
        else Exn (k @ '' is not a function'') (JStr ''TypeError'')),
      data_clone_error = (\<lambda>v. Exn ''The object could not be cloned.'' (JStr ''DataCloneError'')),
      error_stack = (\<lambda>m. JStr (''Error: '' @ m)),
      to_number = (\<lambda>v. NaN),
      to_string = (\<lambda>v. ''[object Object]''),
      hundredth = (\<lambda>t. t / 100),
      large_integer = (\<lambda>part. JInfinity)\<rparr>"

definition empty_document :: document where
  "empty_document =
     \<lparr>querySelector = (\<lambda>sel. Inr None),
      querySelectorAll = (\<lambda>sel. Inr []),
      setValue = (\<lambda>el v. None),
      getAttribute = (\<lambda>el a. JNull)\<rparr>"

definition example_button :: element where
  "example_button =
     \<lparr>node = 1, tagName = ''BUTTON'', has_click = True, el_id = ''go'', className = '''',
      textContent = ''Go'',
      innerHTML = ''Go'', el_value = JStr '''', el_content = JUndefined,
      attributes = [(''id'', ''go'')]\<rparr>"

definition button_document :: document where
  "button_document =
     \<lparr>querySelector = (\<lambda>sel. if sel = JStr ''#go'' then Inr (Some example_button) else Inr None),
      querySelectorAll = (\<lambda>sel. if sel = JStr ''#go'' then Inr [example_button] else Inr []),
      setValue = (\<lambda>el v. None),
      getAttribute = (\<lambda>el a. case a of
          JStr k \<Rightarrow> (case map_of (attributes el) k of Some v \<Rightarrow> JStr v | None \<Rightarrow> JNull)
        | _ \<Rightarrow> JNull)\<rparr>"



text \<open>
  Cookie names hold no \<open>=\<close> and no \<open>;\<close>, cookie values no \<open>;\<close>: what the cookie syntax
  of the browser allows in a jar.
\<close>

definition wf_jar :: "jar \<Rightarrow> bool" where
  "wf_jar jar = (\<forall>c \<in> set jar. CHR ''='' \<notin> set (fst c) \<and> CHR '';'' \<notin> set (fst c) \<and> CHR '';'' \<notin> set (snd c))"

text \<open>
  A codec for the examples. It writes JSON text for the values of the examples (strings
  of printable ASCII, whole numbers) and percent-encodes it; it reads the text of one
  \<open>click\<close> command, of one \<open>custom\<close> command and the text \<open>null\<close>, and rejects every
  other text as \<open>JSON.parse\<close> rejects a text that is not JSON (such as \<open>{\<close>, encoded
  \<open>%7B\<close>).
\<close>

definition unreserved :: "char \<Rightarrow> bool" where
  "unreserved c = (c \<in> set ''ABCDEFGHIJKLMNOPQRSTUVWXYZabcdefghijklmnopqrstuvwxyz0123456789-_.!~*()'' \<or> c = CHR 0x27)"

definition percent :: "char \<Rightarrow> string" where
  "percent c =
     (if unreserved c then [c]
      else [CHR ''%'', ''0123456789ABCDEF'' ! (of_char c div 16), ''0123456789ABCDEF'' ! (of_char c mod 16)])"

definition json_quote :: "string \<Rightarrow> string" where
  "json_quote s =
     [CHR 0x22] @ concat (map (\<lambda>c. if c = CHR 0x22 \<or> c = CHR 0x5C then [CHR 0x5C, c] else [c]) s)
       @ [CHR 0x22]"

function decimal :: "nat \<Rightarrow> string" where
  "decimal n = (if n < 10 then [''0123456789'' ! n] else decimal (n div 10) @ [''0123456789'' ! (n mod 10)])"
  by pat_completeness auto
termination
  by (relation "measure id") auto

declare decimal.simps [simp del]

fun json_text :: "jsval \<Rightarrow> string option" where
  "json_text JUndefined = None"
| "json_text JNull = Some ''null''"
| "json_text (JBool b) = Some (if b then ''true'' else ''false'')"
| "json_text (JNum r) =
     (case quotient_of r of (p, q) \<Rightarrow>
        if q = 1 then Some ((if p < 0 then ''-'' else []) @ decimal (nat \<bar>p\<bar>)) else None)"
| "json_text JNaN = Some ''null''"
| "json_text JInfinity = Some ''null''"
| "json_text JMinusInfinity = Some ''null''"
| "json_text (JStr s) = Some (json_quote s)"
| "json_text (JArr vs) =
     Some (''['' @ join '','' (map (\<lambda>v. case json_text v of Some t \<Rightarrow> t | None \<Rightarrow> ''null'') vs) @ '']'')"
| "json_text (JObj fs) =
     Some (''{'' @ join '',''
        (concat (map (\<lambda>(k, v). case json_text v of Some t \<Rightarrow> [json_quote k @ '':'' @ t] | None \<Rightarrow> []) fs))
        @ ''}'')"
| "json_text (JHost h) = Some ''{}''"

definition example_codec :: codec where
  "example_codec =
     \<lparr>decode_parse = (\<lambda>encoded.
        if encoded = Some ''%7B%22action%22%3A%22click%22%2C%22selector%22%3A%22%23go%22%7D''
        then Inr (JObj [(''action'', JStr ''click''), (''selector'', JStr ''#go'')])
        else if encoded = Some
          ''%7B%22action%22%3A%22custom%22%2C%22code%22%3A%22throw%20new%20Error(Array(5000).join(0))%22%7D''
        then Inr (JObj [(''action'', JStr ''custom''),
                        (''code'', JStr ''throw new Error(Array(5000).join(0))'')])
        else if encoded = Some ''null'' then Inr JNull
        else Inl (Exn ''Unexpected end of JSON input'' (JStr ''SyntaxError''))),
      stringify_encode = (\<lambda>v.
        case json_text v of
          Some t \<Rightarrow> Inr (concat (map percent t))
        | None \<Rightarrow> if v = JUndefined then Inr ''undefined''
                  else Inl (Exn ''not a value of the examples'' JUndefined))\<rparr>"

section \<open>sandbox-bridge.js: the state of the bridge\<close>

text \<open>
  How a promise returned by \<open>execute\<close> has settled. The bridge: the window of its
  iframe (\<open>this.iframe.contentWindow\<close>, which is \<open>null\<close>, here \<open>None\<close>, while the iframe is
  not in a document), the readiness flag, the map \<open>pendingExecutions\<close> (correlation id to the
  \<open>resolve\<close> and \<open>reject\<close> of a promise, named by the promise's number, in insertion
  order), the promises that have settled (a promise not listed is pending), the messages
  posted to the iframe in order, and the armed 30 second timers (due time in ms, id,
  promise).
\<close>

datatype settled = Resolved jsval | Rejected exn

record bridge =
  contentWindow :: "nat option"
  ready :: bool
  pendingExecutions :: "(string \<times> nat) list"
  promises :: "(nat \<times> settled) list"
  posted :: "jsval list"
  timers :: "(nat \<times> string \<times> nat) list"
  next_promise :: nat

text \<open>\<open>resolve(v)\<close> and \<open>reject(e)\<close>: a promise settles once, later calls do nothing.\<close>

definition settle :: "nat \<Rightarrow> settled \<Rightarrow> bridge \<Rightarrow> bridge" where
  "settle p r b =
     (case map_of (promises b) p of
        None \<Rightarrow> b\<lparr>promises := AList.update p r (promises b)\<rparr>
      | Some r' \<Rightarrow> b)"

text \<open>
  What the structured clone of \<open>postMessage\<close> accepts: data, not objects of the host.
\<close>

fun cloneable :: "jsval \<Rightarrow> bool" where
  "cloneable (JHost h) = False"
| "cloneable (JArr vs) = (\<forall>v \<in> set vs. cloneable v)"
| "cloneable (JObj fs) = (\<forall>v \<in> set (map snd fs). cloneable v)"
| "cloneable _ = True"

text \<open>
  The outcome of one run of a callback of the bridge: it returns, or it throws, and
  nothing catches the exception; either way with the bridge as the run left it.
\<close>

datatype outcome = Returned bridge | Threw exn bridge

text \<open>
  \<open>this.iframe.contentWindow.postMessage(msg, '*')\<close>: reading \<open>postMessage\<close> of \<open>null\<close>
  throws a \<open>TypeError\<close>.
\<close>

definition postMessage :: "engine \<Rightarrow> jsval \<Rightarrow> bridge \<Rightarrow> outcome" where
  "postMessage E msg b =
     (case contentWindow b of
        None \<Rightarrow> Threw (type_error E JNull ''postMessage'') b
      | Some w \<Rightarrow>
          (if cloneable msg then Returned (b\<lparr>posted := posted b @ [msg]\<rparr>)
           else Threw (data_clone_error E msg) b))"

definition DOM_RESULT :: "jsval \<Rightarrow> jsval \<Rightarrow> jsval" where
  "DOM_RESULT ident r = JObj [(''type'', JStr ''DOM_RESULT''), (''id'', ident), (''result'', r)]"

section \<open>sandbox-bridge.js: the page behind the bridge\<close>

text \<open>
  The page as the listener reads it: the document, the global object \<open>window\<close> with the
  engine's property read \<open>obj[key]\<close> on a value that is not \<open>null\<close> or \<open>undefined\<close> (a
  getter can throw), and the document-level properties of \<open>DOCUMENT_QUERY\<close>.
\<close>

record page =
  dom :: document
  global :: jsval
  get_property :: "jsval \<Rightarrow> jsval \<Rightarrow> exn + jsval"
  title :: string
  href :: string
  hostname :: string
  pathname :: string
  readyState :: string
  documentElement :: element
  body :: "element option"
  cookie :: string

definition dom_result :: "element \<Rightarrow> jsval" where
  "dom_result el =
     JObj [(''textContent'', JStr (textContent el)),
           (''innerHTML'', JStr (innerHTML el)),
           (''value'', el_value el),
           (''tagName'', JStr (tagName el)),
           (''className'', JStr (className el)),
           (''id'', JStr (el_id el)),
           (''attributes'', JObj (map (\<lambda>a. (fst a, JStr (snd a))) (attributes el)))]"

definition dom_results :: "element list \<Rightarrow> jsval" where
  "dom_results elements =
     JArr (map (\<lambda>el. JObj [(''textContent'', JStr (textContent el)),
                            (''innerHTML'', JStr (innerHTML el)),
                            (''value'', el_value el),
                            (''tagName'', JStr (tagName el))]) elements)"

text \<open>\<open>document.querySelector(sel)?.content\<close>.\<close>

definition meta_content :: "document \<Rightarrow> string \<Rightarrow> exn + jsval" where
  "meta_content d sel =
     (case querySelector d (JStr sel) of
        Inl e \<Rightarrow> Inl e
      | Inr None \<Rightarrow> Inr JUndefined
      | Inr (Some el) \<Rightarrow> Inr (el_content el))"

text \<open>\<open>document.querySelectorAll(sel).length\<close>.\<close>

definition count_all :: "document \<Rightarrow> string \<Rightarrow> exn + jsval" where
  "count_all d sel =
     (case querySelectorAll d (JStr sel) of
        Inl e \<Rightarrow> Inl e
      | Inr els \<Rightarrow> Inr (JNum (of_nat (length els))))"

definition meta_selector :: "string \<Rightarrow> string" where
  "meta_selector name = ''meta[name='' @ [CHR 0x22] @ name @ [CHR 0x22] @ '']''"

text \<open>The object \<open>docResult\<close>; reading \<open>document.body.className\<close> throws when there is no body.\<close>

definition docResult :: "engine \<Rightarrow> page \<Rightarrow> exn + jsval" where
  "docResult E P =
     (case body P of
        None \<Rightarrow> Inl (type_error E JNull ''className'')
      | Some b \<Rightarrow>
     (case meta_content (dom P) (meta_selector ''description'') of Inl e \<Rightarrow> Inl e | Inr description \<Rightarrow>
     (case meta_content (dom P) (meta_selector ''keywords'') of Inl e \<Rightarrow> Inl e | Inr keywords \<Rightarrow>
     (case meta_content (dom P) (meta_selector ''viewport'') of Inl e \<Rightarrow> Inl e | Inr viewport \<Rightarrow>
     (case count_all (dom P) ''script'' of Inl e \<Rightarrow> Inl e | Inr scripts \<Rightarrow>
     (case count_all (dom P) (''link[rel='' @ [CHR 0x22] @ ''stylesheet'' @ [CHR 0x22] @ ''], style'') of
        Inl e \<Rightarrow> Inl e | Inr stylesheets \<Rightarrow>
     (case count_all (dom P) ''iframe'' of Inl e \<Rightarrow> Inl e | Inr iframes \<Rightarrow>
        Inr (JObj
          [(''title'', JStr (title P)),
           (''url'', JStr (href P)),
           (''domain'', JStr (hostname P)),
           (''pathname'', JStr (pathname P)),
           (''readyState'', JStr (readyState P)),
           (''documentElement'',
              JObj [(''tagName'', JStr (tagName (documentElement P))),
                    (''className'', JStr (className (documentElement P))),
                    (''id'', JStr (el_id (documentElement P)))]),
           (''body'',
              JObj [(''className'', JStr (className b)),
                    (''id'', JStr (el_id b)),
                    (''innerHTML'', JStr (take 500 (innerHTML b)))]),
           (''meta'',
              JObj [(''description'', description),
                    (''keywords'', keywords),
                    (''viewport'', viewport)]),
           (''cookie'', JStr (cookie P)),
           (''scripts'', scripts),
           (''stylesheets'', stylesheets),
           (''iframes'', iframes)]))))))))"

text \<open>
  \<open>/^\d+$/.test(part)\<close> and \<open>parseInt(part)\<close> on such a part: the integer the digits
  stand for when it is at most \<open>2 ^ 53\<close>, where every integer is a number of the
  engine, and the engine's rounding of it above.
\<close>

definition all_digits :: "string \<Rightarrow> bool" where
  "all_digits part = (part \<noteq> [] \<and> (\<forall>c \<in> set part. c \<in> set ''0123456789''))"

definition digits_value :: "string \<Rightarrow> nat" where
  "digits_value part = foldl (\<lambda>n c. 10 * n + (of_char c - of_char CHR ''0'')) 0 part"

definition parseInt :: "engine \<Rightarrow> string \<Rightarrow> jsval" where
  "parseInt E part =
     (if digits_value part \<le> 2 ^ 53 then JNum (of_nat (digits_value part))
      else large_integer E part)"

text \<open>
  The loop of \<open>CUSTOM_QUERY\<close> over the parts of the path: it stops at a value that is
  \<open>null\<close> or \<open>undefined\<close>, and reads the next property otherwise.
\<close>

fun traverse :: "engine \<Rightarrow> page \<Rightarrow> jsval \<Rightarrow> string list \<Rightarrow> exn + jsval" where
  "traverse E P obj [] = Inr obj"
| "traverse E P obj (part # parts) =
     (if nullish obj then Inr obj
      else
        (case get_property P obj (if all_digits part then parseInt E part else JStr part) of
           Inl e \<Rightarrow> Inl e
         | Inr v \<Rightarrow> traverse E P v parts))"

text \<open>
  The \<open>try\<close> and the \<open>catch\<close> of \<open>CUSTOM_QUERY\<close>: \<open>queryPath.split('.')\<close> throws a
  \<open>TypeError\<close> when \<open>queryPath\<close> is not a string.
\<close>

definition custom_query :: "engine \<Rightarrow> page \<Rightarrow> jsval \<Rightarrow> jsval" where
  "custom_query E P queryPath =
     (case (case queryPath of
              JStr path \<Rightarrow> traverse E P (global P) (js_split ''.'' path)
            | _ \<Rightarrow> Inl (type_error E queryPath ''split'')) of
        Inl e \<Rightarrow> JObj [(''error'', JStr (message e))]
      | Inr obj \<Rightarrow> obj)"

section \<open>sandbox-bridge.js: the message listener of setupIframe\<close>

text \<open>
  A message event: \<open>event.source\<close> is the window that posted the message, or \<open>null\<close>
  (\<open>None\<close>) for an event that no window posted, such as one a script of the page makes
  with \<open>new MessageEvent\<close> and dispatches on \<open>window\<close>.
\<close>

record message_event =
  source :: "nat option"
  data :: jsval

text \<open>\<open>this.pendingExecutions.get(id)\<close>: the keys of the map are strings.\<close>

definition pending_get :: "bridge \<Rightarrow> jsval \<Rightarrow> nat option" where
  "pending_get b ident = (case ident of JStr s \<Rightarrow> map_of (pendingExecutions b) s | _ \<Rightarrow> None)"

definition pending_delete :: "jsval \<Rightarrow> bridge \<Rightarrow> bridge" where
  "pending_delete ident b =
     (case ident of
        JStr s \<Rightarrow> b\<lparr>pendingExecutions := AList.delete s (pendingExecutions b)\<rparr>
      | _ \<Rightarrow> b)"

text \<open>The message of \<open>new Error(error.message)\<close> for an \<open>error\<close> that is an object.\<close>

definition error_message :: "engine \<Rightarrow> jsval \<Rightarrow> string" where
  "error_message E error =
     (case member error ''message'' of
        JUndefined \<Rightarrow> []
      | JStr m \<Rightarrow> m
      | v \<Rightarrow> to_string E v)"

text \<open>The branch of \<open>EXECUTION_RESULT\<close> and \<open>EXECUTION_ERROR\<close>.\<close>

definition execution_response :: "engine \<Rightarrow> bridge \<Rightarrow> jsval \<Rightarrow> outcome" where
  "execution_response E b d =
     (case pending_get b (member d ''id'') of
        None \<Rightarrow> Returned b
      | Some pending \<Rightarrow>
          (if member d ''type'' = JStr ''EXECUTION_RESULT''
           then Returned (settle pending (Resolved (member d ''result''))
                           (pending_delete (member d ''id'') b))
           else if nullish (member d ''error'')
           then Threw (type_error E (member d ''error'') ''message'')
                  (pending_delete (member d ''id'') b)
           else Returned (settle pending
                            (Rejected (new_Error E (error_message E (member d ''error''))))
                            (pending_delete (member d ''id'') b))))"

text \<open>The listener, branch by branch in the order of the source.\<close>

definition setupIframe_listener :: "engine \<Rightarrow> page \<Rightarrow> bridge \<Rightarrow> message_event \<Rightarrow> outcome" where
  "setupIframe_listener E P b event =
     (if source event \<noteq> contentWindow b then Returned b
      else if nullish (data event) then Threw (type_error E (data event) ''type'') b
      else if member (data event) ''type'' = JStr ''SANDBOX_READY''
        then Returned (b\<lparr>ready := True\<rparr>)
      else if member (data event) ''type'' = JStr ''DOM_QUERY'' then
        (case querySelector (dom P) (member (data event) ''selector'') of
           Inl e \<Rightarrow> Threw e b
         | Inr None \<Rightarrow> postMessage E (DOM_RESULT (member (data event) ''id'') JNull) b
         | Inr (Some el) \<Rightarrow>
             postMessage E (DOM_RESULT (member (data event) ''id'') (dom_result el)) b)
      else if member (data event) ''type'' = JStr ''DOM_QUERY_ALL'' then
        (case querySelectorAll (dom P) (member (data event) ''selector'') of
           Inl e \<Rightarrow> Threw e b
         | Inr elements \<Rightarrow>
             postMessage E (DOM_RESULT (member (data event) ''id'') (dom_results elements)) b)
      else if member (data event) ''type'' = JStr ''DOCUMENT_QUERY'' then
        (case docResult E P of
           Inl e \<Rightarrow> Threw e b
         | Inr r \<Rightarrow> postMessage E (DOM_RESULT (member (data event) ''id'') r) b)
      else if member (data event) ''type'' = JStr ''CUSTOM_QUERY'' then
        postMessage E
          (DOM_RESULT (member (data event) ''id'')
             (custom_query E P (member (data event) ''queryPath''))) b
      else if member (data event) ''type'' = JStr ''EXECUTION_RESULT''
            \<or> member (data event) ''type'' = JStr ''EXECUTION_ERROR''
        then execution_response E b (data event)
      else Returned b)"

text \<open>The bridge after a run of a callback, returned or thrown.\<close>

fun after :: "outcome \<Rightarrow> bridge" where
  "after (Returned b) = b"
| "after (Threw e b) = b"

section \<open>sandbox-bridge.js: execute\<close>

text \<open>
  The wait for readiness, lines 196 to 209. \<open>flag t\<close> is \<open>this.ready\<close> at \<open>t\<close> ms after
  the call. The callback of \<open>setInterval\<close> runs at 50, 100, 150, ... and resolves the
  wait the first time it sees the flag set; the callback of \<open>setTimeout\<close> resolves it at
  5000, where both are due. The function returns the time at which the wait is resolved.
\<close>

function await_ready :: "(nat \<Rightarrow> bool) \<Rightarrow> nat \<Rightarrow> nat" where
  "await_ready flag t =
     (if 5000 \<le> t then 5000
      else if flag t then t
      else await_ready flag (t + 50))"
  by pat_completeness auto
termination
  by (relation "measure (\<lambda>(flag, t). 5000 - t)") auto

declare await_ready.simps [simp del]

text \<open>
  The id of an execution: \<open>exec_\<close>, \<open>Date.now()\<close>, and the nine characters drawn from
  \<open>Math.random()\<close>.
\<close>

definition execution_id :: "nat \<Rightarrow> string \<Rightarrow> string" where
  "execution_id now random = ''exec_'' @ decimal now @ ''_'' @ random"

definition EXECUTE_CODE :: "jsval \<Rightarrow> string \<Rightarrow> jsval" where
  "EXECUTE_CODE code ident =
     JObj [(''type'', JStr ''EXECUTE_CODE''), (''code'', code), (''id'', JStr ident)]"

text \<open>
  \<open>execute\<close> from line 211 on, run at time \<open>now\<close> on the bridge as it is then. \<open>Inl e\<close>:
  the call rejects with \<open>e\<close> at once. \<open>Inr (p, b)\<close>: the call waits for promise \<open>p\<close>, whose
  record is in \<open>pendingExecutions\<close> and whose timer is armed for \<open>now + 30000\<close>.
\<close>

definition execute_dispatch ::
    "engine \<Rightarrow> nat \<Rightarrow> string \<Rightarrow> jsval \<Rightarrow> bridge \<Rightarrow> exn + (nat \<times> bridge)" where
  "execute_dispatch E now random code b =
     (if \<not> ready b then Inl (new_Error E ''Sandbox not ready'')
      else
        (case postMessage E (EXECUTE_CODE code (execution_id now random)) b of
           Threw e b' \<Rightarrow> Inl e
         | Returned b' \<Rightarrow>
             Inr (next_promise b',
                  b'\<lparr>pendingExecutions :=
                        AList.update (execution_id now random) (next_promise b') (pendingExecutions b'),
                      timers := timers b' @ [(now + 30000, execution_id now random, next_promise b')],
                      next_promise := next_promise b' + 1\<rparr>)))"

text \<open>
  \<open>execute(code)\<close> called at time \<open>now\<close>, where \<open>world t\<close> is the bridge as its listener
  has left it \<open>t\<close> ms after the call: the wait, if the flag is not set, then the rest.
\<close>

definition resume_time :: "(nat \<Rightarrow> bridge) \<Rightarrow> nat" where
  "resume_time world =
     (if ready (world 0) then 0 else await_ready (\<lambda>t. ready (world t)) 50)"

definition execute ::
    "engine \<Rightarrow> (nat \<Rightarrow> bridge) \<Rightarrow> nat \<Rightarrow> string \<Rightarrow> jsval \<Rightarrow> exn + (nat \<times> bridge)" where
  "execute E world now random code =
     execute_dispatch E (now + resume_time world) random code (world (resume_time world))"

text \<open>The callback of the 30 second timer of the execution \<open>ident\<close> with promise \<open>p\<close>.\<close>

definition execution_timeout :: "engine \<Rightarrow> string \<Rightarrow> nat \<Rightarrow> bridge \<Rightarrow> bridge" where
  "execution_timeout E ident p b =
     (if map_of (pendingExecutions b) ident \<noteq> None
      then settle p (Rejected (new_Error E ''Execution timeout''))
             (b\<lparr>pendingExecutions := AList.delete ident (pendingExecutions b)\<rparr>)
      else b)"

text \<open>
  The clock reaches \<open>t\<close>: the timers due by then run, in the order of their due times
  (armed first, first), and are disarmed.
\<close>

definition run_timers :: "engine \<Rightarrow> (nat \<times> string \<times> nat) list \<Rightarrow> bridge \<Rightarrow> bridge" where
  "run_timers E ts b = foldl (\<lambda>b' x. execution_timeout E (fst (snd x)) (snd (snd x)) b') b ts"

definition elapse :: "engine \<Rightarrow> nat \<Rightarrow> bridge \<Rightarrow> bridge" where
  "elapse E t b =
     run_timers E (sort_key fst (filter (\<lambda>x. fst x \<le> t) (timers b)))
       (b\<lparr>timers := filter (\<lambda>x. t < fst x) (timers b)\<rparr>)"

text \<open>A bridge whose executor is ready and has nothing pending, for the examples.\<close>

definition example_bridge :: bridge where
  "example_bridge =
     \<lparr>contentWindow = Some 7, ready = True, pendingExecutions = [], promises = [],
      posted = [], timers = [], next_promise = 0\<rparr>"

text \<open>
  A page whose \<open>window.document\<close> is the document object of the host, with the title
  \<open>Example\<close>; every other property read gives \<open>undefined\<close>.
\<close>

definition example_page :: page where
  "example_page =
     \<lparr>dom = button_document,
      global = JHost ''window'',
      get_property = (\<lambda>obj key.
        if obj = JHost ''window'' \<and> key = JStr ''document'' then Inr (JHost ''document'')
        else if obj = JHost ''document'' \<and> key = JStr ''title'' then Inr (JStr ''Example'')
        else Inr JUndefined),
      title = ''Example'',
      href = ''https://example.test/'',
      hostname = ''example.test'',
      pathname = ''/'',
      readyState = ''complete'',
      documentElement = example_button,
      body = Some example_button,
      cookie = ''pw_ready=true''\<rparr>"

section \<open>Responses of the executor\<close>

text \<open>
  How the response with data \<open>d\<close> settles the call it answers: \<open>EXECUTION_RESULT\<close>
  resolves it with the result, \<open>EXECUTION_ERROR\<close> rejects it with the error's message.
\<close>

definition reply :: "engine \<Rightarrow> jsval \<Rightarrow> settled" where
  "reply E d =
     (if member d ''type'' = JStr ''EXECUTION_RESULT'' then Resolved (member d ''result'')
      else Rejected (new_Error E (error_message E (member d ''error''))))"

text \<open>
  A message of the iframe that answers the execution \<open>ident\<close>; a response of the wire
  format, whose \<open>EXECUTION_ERROR\<close> carries an error object.
\<close>

definition answers :: "bridge \<Rightarrow> string \<Rightarrow> message_event \<Rightarrow> bool" where
  "answers b ident event =
     (source event = contentWindow b
      \<and> (member (data event) ''type'' = JStr ''EXECUTION_RESULT''
         \<or> member (data event) ''type'' = JStr ''EXECUTION_ERROR'')
      \<and> member (data event) ''id'' = JStr ident)"

definition response_for :: "bridge \<Rightarrow> string \<Rightarrow> message_event \<Rightarrow> bool" where
  "response_for b ident event =
     (answers b ident event
      \<and> (member (data event) ''type'' = JStr ''EXECUTION_ERROR''
           \<longrightarrow> \<not> nullish (member (data event) ''error'')))"

text \<open>
  The promises the bridge knows are numbered below \<open>next_promise\<close>: each call of
  \<open>execute\<close> makes a new one.
\<close>

definition fresh_promises :: "bridge \<Rightarrow> bool" where
  "fresh_promises b =
     ((\<forall>x \<in> set (promises b). fst x < next_promise b)
      \<and> (\<forall>x \<in> set (pendingExecutions b). snd x < next_promise b)
      \<and> (\<forall>x \<in> set (timers b). snd (snd x) < next_promise b))"

text \<open>The bridge of the examples after one and after two calls of \<open>execute\<close>, and two responses.\<close>

definition one_pending :: bridge where
  "one_pending =
     \<lparr>contentWindow = Some 7, ready = True,
      pendingExecutions = [(''exec_1000_aaaaaaaaa'', 0)],
      promises = [],
      posted = [JObj [(''type'', JStr ''EXECUTE_CODE''), (''code'', JStr ''return 1''),
                      (''id'', JStr ''exec_1000_aaaaaaaaa'')]],
      timers = [(31000, ''exec_1000_aaaaaaaaa'', 0)],
      next_promise = 1\<rparr>"

definition two_pending :: bridge where
  "two_pending =
     \<lparr>contentWindow = Some 7, ready = True,
      pendingExecutions = [(''exec_1000_aaaaaaaaa'', 0), (''exec_1000_bbbbbbbbb'', 1)],
      promises = [],
      posted = [JObj [(''type'', JStr ''EXECUTE_CODE''), (''code'', JStr ''return 1''),
                      (''id'', JStr ''exec_1000_aaaaaaaaa'')],
                JObj [(''type'', JStr ''EXECUTE_CODE''), (''code'', JStr ''throw 2''),
                      (''id'', JStr ''exec_1000_bbbbbbbbb'')]],
      timers = [(31000, ''exec_1000_aaaaaaaaa'', 0), (31000, ''exec_1000_bbbbbbbbb'', 1)],
      next_promise = 2\<rparr>"

definition first_result :: message_event where
  "first_result =
     \<lparr>source = Some 7,
      data = JObj [(''type'', JStr ''EXECUTION_RESULT''), (''id'', JStr ''exec_1000_aaaaaaaaa''),
                   (''result'', JNum 1)]\<rparr>"

definition second_error :: message_event where
  "second_error =
     \<lparr>source = Some 7,
      data = JObj [(''type'', JStr ''EXECUTION_ERROR''), (''id'', JStr ''exec_1000_bbbbbbbbb''),
                   (''error'', JObj [(''message'', JStr ''boom'')])]\<rparr>"

text \<open>A bridge that receives the readiness message 120 ms after the call, and one that never does.\<close>

definition ready_after_120 :: "nat \<Rightarrow> bridge" where
  "ready_after_120 t = (if t < 120 then example_bridge\<lparr>ready := False\<rparr> else example_bridge)"

definition never_ready :: "nat \<Rightarrow> bridge" where
  "never_ready t = example_bridge\<lparr>ready := False\<rparr>"

section \<open>The bridge over time\<close>

text \<open>
  What happens to the bridge, one occurrence after the other: its listener receives a
  message, the clock reaches a time and the timers due run, or the rest of another
  \<open>execute\<close> (from line 211 on) runs.
\<close>

datatype occurrence = Message message_event | Clock nat | Call nat string jsval

fun occur :: "engine \<Rightarrow> page \<Rightarrow> bridge \<Rightarrow> occurrence \<Rightarrow> bridge" where
  "occur E P b (Message event) = after (setupIframe_listener E P b event)"
| "occur E P b (Clock t) = elapse E t b"
| "occur E P b (Call now random code) =
     (case execute_dispatch E now random code b of
        Inl e \<Rightarrow> b
      | Inr r \<Rightarrow> snd r)"

definition run :: "engine \<Rightarrow> page \<Rightarrow> bridge \<Rightarrow> occurrence list \<Rightarrow> bridge" where
  "run E P b occs = foldl (occur E P) b occs"

text \<open>
  An occurrence that leaves the execution \<open>ident\<close>, due at \<open>due\<close>, unanswered: a message
  that is not a response to it, a time before it is due, a call with another id.
\<close>

fun undisturbed :: "bridge \<Rightarrow> string \<Rightarrow> nat \<Rightarrow> occurrence \<Rightarrow> bool" where
  "undisturbed b ident due (Message event) = (\<not> answers b ident event)"
| "undisturbed b ident due (Clock t) = (t < due)"
| "undisturbed b ident due (Call now random code) = (execution_id now random \<noteq> ident)"

fun other_call :: "string \<Rightarrow> occurrence \<Rightarrow> bool" where
  "other_call ident (Call now random code) = (execution_id now random \<noteq> ident)"
| "other_call ident _ = True"

text \<open>
  The call with promise \<open>p\<close> and id \<open>ident\<close> is pending: its record is in the table, under
  its id only, and its promise is not settled; it is waiting when, moreover, its timer
  is armed for \<open>due\<close> and no other timer bears its id or its promise. It has timed out
  when the record is gone and the promise is rejected with \<open>Execution timeout\<close>.
\<close>

definition pending_call :: "nat option \<Rightarrow> string \<Rightarrow> nat \<Rightarrow> bridge \<Rightarrow> bool" where
  "pending_call w ident p b =
     (contentWindow b = w
      \<and> map_of (pendingExecutions b) ident = Some p
      \<and> map_of (promises b) p = None
      \<and> (\<forall>i. map_of (pendingExecutions b) i = Some p \<longrightarrow> i = ident)
      \<and> p < next_promise b)"

definition waiting :: "nat option \<Rightarrow> string \<Rightarrow> nat \<Rightarrow> nat \<Rightarrow> bridge \<Rightarrow> bool" where
  "waiting w ident p due b =
     (pending_call w ident p b
      \<and> (due, ident, p) \<in> set (timers b)
      \<and> (\<forall>x \<in> set (timers b). fst (snd x) = ident \<or> snd (snd x) = p \<longrightarrow> x = (due, ident, p)))"

definition timed_out :: "engine \<Rightarrow> nat option \<Rightarrow> string \<Rightarrow> nat \<Rightarrow> bridge \<Rightarrow> bool" where
  "timed_out E w ident p b =
     (contentWindow b = w
      \<and> map_of (pendingExecutions b) ident = None
      \<and> map_of (promises b) p = Some (Rejected (new_Error E ''Execution timeout'')))"

text \<open>
  Half a minute in which the execution \<open>exec_1000_aaaaaaaaa\<close> is not answered: the
  executor answers another execution, the clock reaches 20 s, and another call is
  dispatched at 25 s.
\<close>

definition quiet_half_minute :: "occurrence list" where
  "quiet_half_minute =
     [Message second_error, Clock 20000, Call 25000 ''bbbbbbbbb'' (JStr ''throw 2'')]"

text \<open>
  The bridge as its constructor leaves it: the iframe it created is in the document and
  has the window \<open>w\<close>.
\<close>

definition constructor :: "nat \<Rightarrow> bridge" where
  "constructor w =
     \<lparr>contentWindow = Some w, ready = False, pendingExecutions = [], promises = [],
      posted = [], timers = [], next_promise = 0\<rparr>"

chapter \<open>Properties\<close>

lemma member_action_not_nullish: "member cmd k = JStr a \<Longrightarrow> \<not> nullish cmd"
  by (cases cmd) auto

section \<open>executeCommand: the handlers\<close>

text \<open>
  C10. A \<open>click\<close> command whose selector matches no element (\<open>querySelector\<close> returns
  \<open>null\<close>) still returns \<open>{success: true}\<close>, with no effect on the page: the optional
  chaining skips the call, and the result has no \<open>error\<close> field and is not the
  \<open>Element not found\<close> result of \<open>fillInput\<close>.
\<close>

theorem click_missing_element_succeeds:
  assumes "member cmd ''action'' = JStr ''click''"
    and "querySelector (page 0) (member cmd ''selector'') = Inr None"
  shows "executeCommand E page sandbox cmd = Some (success_true, [])
    \<and> executeCommand E page sandbox cmd = Some (JObj [(''success'', JBool True)], [])
    \<and> member (fst (the (executeCommand E page sandbox cmd))) ''error'' = JUndefined
    \<and> fst (the (executeCommand E page sandbox cmd)) \<noteq> not_found_result"
  using assms member_action_not_nullish [OF assms(1)]
  by (simp add: executeCommand_def switch_action_def case_click_def success_true_def not_found_result_def)

theorem click_missing_element_succeeds_witness:
  "executeCommand example_engine (\<lambda>i. empty_document) (\<lambda>code. Some (Inr JUndefined))
      (JObj [(''action'', JStr ''click''), (''selector'', JStr ''#missing'')])
    = Some (JObj [(''success'', JBool True)], [])"
  using click_missing_element_succeeds [of "JObj [(''action'', JStr ''click''), (''selector'', JStr ''#missing'')]"
      "\<lambda>i. empty_document" example_engine "\<lambda>code. Some (Inr JUndefined)"]
  by (simp add: empty_document_def success_true_def)

text \<open>
  The optional chaining guards the missing element only: an element that is found is
  clicked when it has the method, and the call throws a \<open>TypeError\<close>, returned as
  \<open>{error, stack}\<close>, when it has not.
\<close>

lemma click_found_element:
  assumes "member cmd ''action'' = JStr ''click''"
    and "querySelector (page 0) (member cmd ''selector'') = Inr (Some el)"
  shows "executeCommand E page sandbox cmd =
    (if has_click el then Some (JObj [(''success'', JBool True)], [Click el])
     else Some (JObj [(''error'', JStr (message (type_error E (JHost (tagName el)) ''click''))),
                      (''stack'', stack (type_error E (JHost (tagName el)) ''click''))], []))"
  using assms member_action_not_nullish [OF assms(1)]
  by (simp add: executeCommand_def switch_action_def case_click_def success_true_def caught_result_def)

section \<open>executeCommand: waitForElement\<close>

lemma below_finite: "below i (Finite B) = (i < nat \<lceil>B\<rceil>)"
proof -
  have "(of_nat i < B) = (i < nat \<lceil>B\<rceil>)"
    by (metis less_ceiling_iff nat_less_iff of_int_of_nat_eq of_nat_0_le_iff zless_nat_conj
        zless_nat_eq_int_zless)
  then show ?thesis by simp
qed

lemma below_mono: "below k t \<Longrightarrow> j \<le> k \<Longrightarrow> below j t"
  by (cases t) (auto simp: below_finite)

lemma loop_found:
  assumes "below k t" and "present page sel k"
    and "\<forall>j. i \<le> j \<and> j < k \<longrightarrow> querySelector (page j) sel = Inr None" and "i \<le> k"
  shows "waitForElement_loop page sel t i = Some (Inr (True, k))"
  using assms
proof (induction "k - i" arbitrary: i)
  case 0
  then have "i = k" by simp
  with 0 show ?case
    by (subst waitForElement_loop.simps)
       (auto simp: present_def split: sum.splits option.splits)
next
  case (Suc d)
  then have lt: "i < k" and none: "querySelector (page i) sel = Inr None" by auto
  have b: "below i t" by (rule below_mono [OF Suc.prems(1)]) (use lt in simp)
  have "waitForElement_loop page sel t (i + 1) = Some (Inr (True, k))"
    using Suc by (intro Suc.hyps(1)) auto
  with b none show ?case
    by (subst waitForElement_loop.simps) simp
qed

lemma loop_throws:
  assumes "below k t" and "querySelector (page k) sel = Inl e"
    and "\<forall>j. i \<le> j \<and> j < k \<longrightarrow> querySelector (page j) sel = Inr None" and "i \<le> k"
  shows "waitForElement_loop page sel t i = Some (Inl e)"
  using assms
proof (induction "k - i" arbitrary: i)
  case 0
  then have "i = k" by simp
  with 0 show ?case
    by (subst waitForElement_loop.simps) auto
next
  case (Suc d)
  then have lt: "i < k" and none: "querySelector (page i) sel = Inr None" by auto
  have b: "below i t" by (rule below_mono [OF Suc.prems(1)]) (use lt in simp)
  have "waitForElement_loop page sel t (i + 1) = Some (Inl e)"
    using Suc by (intro Suc.hyps(1)) auto
  with b none show ?case
    by (subst waitForElement_loop.simps) simp
qed


text \<open>
  With the bound \<open>Infinity\<close> the loop has no end of its own: when it returns, some
  attempt has found the element or has thrown.
\<close>

lemma loop_returns:
  assumes "waitForElement_loop page sel t i = Some r"
  shows "t = PosInfinity \<longrightarrow> (\<exists>j\<ge>i. querySelector (page j) sel \<noteq> Inr None)"
proof (rule waitForElement_loop.raw_induct
    [where P = "\<lambda>page sel t i r. t = PosInfinity \<longrightarrow> (\<exists>j\<ge>i. querySelector (page j) sel \<noteq> Inr None)",
     OF _ assms])
  fix wl :: "(nat \<Rightarrow> document) \<Rightarrow> jsval \<Rightarrow> number \<Rightarrow> nat \<Rightarrow> (exn + (bool \<times> nat)) option"
  fix page sel t i r
  assume IH: "\<And>page sel t i r. wl page sel t i = Some r \<Longrightarrow>
      t = PosInfinity \<longrightarrow> (\<exists>j\<ge>i. querySelector (page j) sel \<noteq> Inr None)"
    and body: "(if below i t then
        (case querySelector (page i) sel of
           Inl e \<Rightarrow> Some (Inl e)
         | Inr None \<Rightarrow> wl page sel t (i + 1)
         | Inr (Some el) \<Rightarrow> Some (Inr (True, i)))
      else Some (Inr (False, i))) = Some r"
  show "t = PosInfinity \<longrightarrow> (\<exists>j\<ge>i. querySelector (page j) sel \<noteq> Inr None)"
  proof
    assume t: "t = PosInfinity"
    show "\<exists>j\<ge>i. querySelector (page j) sel \<noteq> Inr None"
    proof (cases "querySelector (page i) sel = Inr None")
      case True
      with body t have "wl page sel t (i + 1) = Some r" by simp
      then have "t = PosInfinity \<longrightarrow> (\<exists>j\<ge>i + 1. querySelector (page j) sel \<noteq> Inr None)"
        by (rule IH)
      with t obtain j where "j \<ge> i + 1" and "querySelector (page j) sel \<noteq> Inr None" by blast
      then show ?thesis by (intro exI [of _ j]) simp
    next
      case False
      then show ?thesis by blast
    qed
  qed
qed

lemma loop_never:
  assumes "\<forall>j. querySelector (page j) sel = Inr None"
  shows "waitForElement_loop page sel PosInfinity i = None"
proof (cases "waitForElement_loop page sel PosInfinity i")
  case None
  then show ?thesis .
next
  case (Some r)
  from loop_returns [OF Some] assms show ?thesis by blast
qed

lemma waitForElement_command:
  assumes "member cmd ''action'' = JStr ''waitForElement''"
  shows "executeCommand E page sandbox cmd =
    (case waitForElement_loop page (member cmd ''selector'')
            (quotient_100 E (number_of E (member cmd ''timeout''))) 0 of
       None \<Rightarrow> None
     | Some (Inl e) \<Rightarrow> Some (caught_result e, [])
     | Some (Inr (found, sleeps)) \<Rightarrow> Some (if found then success_true else timeout_result, []))"
  using assms member_action_not_nullish [OF assms]
  by (simp add: executeCommand_def switch_action_def case_waitForElement_def
      split: option.splits sum.splits)





text \<open>
  The other timeouts. When \<open>timeout / 100\<close> is \<open>NaN\<close> (a command without \<open>timeout\<close>),
  \<open>-Infinity\<close>, or a number that is not above 0 (also a positive \<open>timeout\<close> whose
  hundredth rounds to 0), the loop makes no attempt. With \<open>Infinity\<close> the attempts go on
  until the element exists or a lookup throws, and for ever when neither happens.
\<close>

lemma waitForElement_no_attempt:
  assumes act: "member cmd ''action'' = JStr ''waitForElement''"
    and num: "number_of E (member cmd ''timeout'') = NaN
           \<or> number_of E (member cmd ''timeout'') = NegInfinity
           \<or> (\<exists>T. number_of E (member cmd ''timeout'') = Finite T \<and> hundredth E T \<le> 0)"
  shows "executeCommand E page sandbox cmd
    = Some (JObj [(''success'', JBool False), (''error'', JStr ''Timeout'')], [])"
proof -
  from num have "waitForElement_loop page (member cmd ''selector'')
      (quotient_100 E (number_of E (member cmd ''timeout''))) 0 = Some (Inr (False, 0))"
    by (subst waitForElement_loop.simps) (auto simp: quotient_100_def)
  then show ?thesis
    by (simp add: waitForElement_command [OF act] timeout_result_def)
qed

lemma waitForElement_unbounded:
  assumes act: "member cmd ''action'' = JStr ''waitForElement''"
    and num: "number_of E (member cmd ''timeout'') = PosInfinity"
  shows "(\<forall>k. present page (member cmd ''selector'') k
              \<and> (\<forall>j<k. absent page (member cmd ''selector'') j) \<longrightarrow>
            executeCommand E page sandbox cmd = Some (JObj [(''success'', JBool True)], []))
    \<and> (\<forall>k e. querySelector (page k) (member cmd ''selector'') = Inl e
              \<and> (\<forall>j<k. absent page (member cmd ''selector'') j) \<longrightarrow>
            executeCommand E page sandbox cmd
              = Some (JObj [(''error'', JStr (message e)), (''stack'', stack e)], []))
    \<and> ((\<forall>j. absent page (member cmd ''selector'') j) \<longrightarrow>
            executeCommand E page sandbox cmd = None)"
proof (intro conjI allI impI)
  fix k
  assume "present page (member cmd ''selector'') k
              \<and> (\<forall>j<k. absent page (member cmd ''selector'') j)"
  then have "waitForElement_loop page (member cmd ''selector'') PosInfinity 0 = Some (Inr (True, k))"
    by (intro loop_found) (simp_all add: absent_def)
  then show "executeCommand E page sandbox cmd = Some (JObj [(''success'', JBool True)], [])"
    by (simp add: waitForElement_command [OF act] num quotient_100_def success_true_def)
next
  fix k e
  assume "querySelector (page k) (member cmd ''selector'') = Inl e
              \<and> (\<forall>j<k. absent page (member cmd ''selector'') j)"
  then have "waitForElement_loop page (member cmd ''selector'') PosInfinity 0 = Some (Inl e)"
    by (intro loop_throws [of k]) (simp_all add: absent_def)
  then show "executeCommand E page sandbox cmd
              = Some (JObj [(''error'', JStr (message e)), (''stack'', stack e)], [])"
    by (simp add: waitForElement_command [OF act] num quotient_100_def caught_result_def)
next
  assume "\<forall>j. absent page (member cmd ''selector'') j"
  then have "waitForElement_loop page (member cmd ''selector'') PosInfinity 0 = None"
    by (intro loop_never) (simp add: absent_def)
  then show "executeCommand E page sandbox cmd = None"
    by (simp add: waitForElement_command [OF act] num quotient_100_def)
qed

section \<open>executeCommand: custom\<close>

text \<open>
  The claim C9 as stated fails: when the executor returns 2 for \<open>return 1+1\<close>, the
  result of the command is the number 2 itself, which has no \<open>success\<close> field.
\<close>

theorem custom_result_counterexample:
  "map_option fst (executeCommand example_engine (\<lambda>i. empty_document)
          (\<lambda>code. if code = JStr ''return 1+1'' then Some (Inr (JNum 2)) else Some (Inr JUndefined))
          (JObj [(''action'', JStr ''custom''), (''code'', JStr ''return 1+1'')])) = Some (JNum 2)
   \<and> member (JNum 2) ''success'' = JUndefined"
  by (simp add: executeCommand_def switch_action_def case_custom_def)

text \<open>
  C9, amended. A \<open>custom\<close> command returns what \<open>execute(code)\<close> resolved with, as it
  is, when that value is truthy (so the number 2 for an executor that returns 2), and
  \<open>{success: true}\<close> when it is falsy; when \<open>execute\<close> rejects (the executor is not ready
  or does not answer) the result is \<open>{error, stack}\<close> with the message of the rejection.
\<close>

theorem custom_passes_result_through:
  assumes "member cmd ''action'' = JStr ''custom''"
  shows "(\<forall>v. sandbox (member cmd ''code'') = Some (Inr v) \<longrightarrow>
            executeCommand E page sandbox cmd
              = Some (if truthy v then v else JObj [(''success'', JBool True)], []))
    \<and> (\<forall>e. sandbox (member cmd ''code'') = Some (Inl e) \<longrightarrow>
            executeCommand E page sandbox cmd
              = Some (JObj [(''error'', JStr (message e)), (''stack'', stack e)], [])
            \<and> member (JObj [(''error'', JStr (message e)), (''stack'', stack e)]) ''error''
                = JStr (message e))"
  using assms member_action_not_nullish [OF assms]
  by (simp add: executeCommand_def switch_action_def case_custom_def caught_result_def
      success_true_def)

theorem custom_passes_result_through_witness:
  "executeCommand example_engine (\<lambda>i. empty_document)
          (\<lambda>code. if code = JStr ''return 1+1'' then Some (Inr (JNum 2)) else Some (Inr JUndefined))
          (JObj [(''action'', JStr ''custom''), (''code'', JStr ''return 1+1'')])
       = Some (JNum 2, [])
   \<and> executeCommand example_engine (\<lambda>i. empty_document)
          (\<lambda>code. Some (Inl (new_Error example_engine ''Sandbox not ready'')))
          (JObj [(''action'', JStr ''custom''), (''code'', JStr ''return 1+1'')])
       = Some (JObj [(''error'', JStr ''Sandbox not ready''),
                     (''stack'', JStr ''Error: Sandbox not ready'')], [])"
proof -
  let ?cmd = "JObj [(''action'', JStr ''custom''), (''code'', JStr ''return 1+1'')]"
  have act: "member ?cmd ''action'' = JStr ''custom''" by simp
  show ?thesis
    using custom_passes_result_through [OF act, of "\<lambda>code. if code = JStr ''return 1+1'' then Some (Inr (JNum 2)) else Some (Inr JUndefined)" example_engine "\<lambda>i. empty_document"]
      custom_passes_result_through [OF act, of "\<lambda>code. Some (Inl (new_Error example_engine ''Sandbox not ready''))" example_engine "\<lambda>i. empty_document"]
    by (simp add: new_Error_def example_engine_def)
qed

section \<open>checkForCommands: the command slot\<close>

lemma split_miss:
  "c \<noteq> CHR '';'' \<Longrightarrow> js_split_from ''; '' cur (c # cs) = js_split_from ''; '' (cur @ [c]) cs"
  by (subst js_split_from.simps) simp

lemma split_hit:
  "js_split_from ''; '' cur (CHR '';'' # CHR '' '' # cs) = cur # js_split_from ''; '' [] cs"
  by (subst js_split_from.simps) simp

lemma split_no_sep:
  "CHR '';'' \<notin> set r \<Longrightarrow> js_split_from ''; '' cur (r @ rest) = js_split_from ''; '' (cur @ r) rest"
proof (induction r arbitrary: cur)
  case Nil
  then show ?case by simp
next
  case (Cons c r)
  then have c: "c \<noteq> CHR '';''" and r: "CHR '';'' \<notin> set r" by auto
  show ?case
    using Cons.IH [OF r, of "cur @ [c]"] c by (simp add: split_miss del: js_split_from.simps)
qed

lemma split_join:
  "rows \<noteq> [] \<Longrightarrow> \<forall>r \<in> set rows. CHR '';'' \<notin> set r \<Longrightarrow>
     js_split_from ''; '' cur (join ''; '' rows) = (cur @ hd rows) # tl rows"
proof (induction "''; ''" rows arbitrary: cur rule: join.induct)
  case 1
  then show ?case by simp
next
  case (2 x)
  then show ?case
    using split_no_sep [of x cur "[]"] by simp
next
  case (3 x y ys)
  have "js_split_from ''; '' cur (x @ ''; '' @ join ''; '' (y # ys))
      = js_split_from ''; '' (cur @ x) (''; '' @ join ''; '' (y # ys))"
    using 3 by (intro split_no_sep) simp
  also have "\<dots> = (cur @ x) # js_split_from ''; '' [] (join ''; '' (y # ys))"
    using split_hit [of "cur @ x" "join ''; '' (y # ys)"] by (simp del: js_split_from.simps)
  also have "js_split_from ''; '' [] (join ''; '' (y # ys)) = y # ys"
    using 3 by (simp del: js_split_from.simps)
  finally show ?case by (simp del: js_split_from.simps)
qed

lemma split_document_cookie:
  assumes "wf_jar jar" and "jar \<noteq> []"
  shows "js_split ''; '' (document_cookie jar) = map cookie_row jar"
proof -
  have "\<forall>r \<in> set (map cookie_row jar). CHR '';'' \<notin> set r"
    using assms(1) by (auto simp: wf_jar_def cookie_row_def)
  moreover have "map cookie_row jar \<noteq> []" using assms(2) by simp
  ultimately have "js_split_from ''; '' [] (join ''; '' (map cookie_row jar))
      = ([] @ hd (map cookie_row jar)) # tl (map cookie_row jar)"
    by (rule split_join [rotated])
  then show ?thesis
    using assms(2) by (cases jar) (simp_all add: js_split_def document_cookie_def del: js_split_from.simps)
qed


lemma first_cut_unique:
  "c \<notin> set a \<Longrightarrow> c \<notin> set b \<Longrightarrow> a @ c # x = b @ c # y \<Longrightarrow> a = b"
proof (induction a arbitrary: b)
  case Nil
  then show ?case by (cases b) auto
next
  case (Cons h a)
  then show ?case by (cases b) auto
qed

lemma row_starts_with_command:
  assumes "CHR ''='' \<notin> set n"
  shows "startsWith (cookie_row (n, v)) (COMMAND_COOKIE @ ''='') = (n = COMMAND_COOKIE)"
proof
  assume a: "startsWith (cookie_row (n, v)) (COMMAND_COOKIE @ ''='')"
  define k where "k = length (''pw_cmd'' @ ''='')"
  define X where "X = n @ ''='' @ v"
  from a have t: "take k X = ''pw_cmd'' @ ''=''"
    by (simp only: startsWith_def cookie_row_def COMMAND_COOKIE_def fst_conv snd_conv k_def X_def)
  define Y where "Y = drop k X"
  have "X = take k X @ Y"
    by (simp only: Y_def append_take_drop_id)
  with t have "X = (''pw_cmd'' @ ''='') @ Y"
    by (simp only:)
  then have e: "n @ CHR ''='' # v = ''pw_cmd'' @ CHR ''='' # Y"
    unfolding X_def by simp
  have "CHR ''='' \<notin> set ''pw_cmd''" by simp
  from first_cut_unique [OF assms this e] show "n = COMMAND_COOKIE"
    by (simp only: COMMAND_COOKIE_def)
next
  assume "n = COMMAND_COOKIE"
  then show "startsWith (cookie_row (n, v)) (COMMAND_COOKIE @ ''='')"
    by (simp add: startsWith_def cookie_row_def COMMAND_COOKIE_def)
qed

lemma find_command_wf:
  assumes "wf_jar jar"
  shows "find_command jar = map_option cookie_row (find (\<lambda>c. fst c = COMMAND_COOKIE) jar)"
proof (cases "jar = []")
  case True
  then show ?thesis
    by (simp add: find_command_def document_cookie_def js_split_def startsWith_def COMMAND_COOKIE_def)
next
  case False
  have "find (\<lambda>row. startsWith row (COMMAND_COOKIE @ ''='')) (map cookie_row js)
      = map_option cookie_row (find (\<lambda>c. fst c = COMMAND_COOKIE) js)" if "wf_jar js" for js
    using that
  proof (induction js)
    case Nil
    then show ?case by simp
  next
    case (Cons c js)
    then have "wf_jar js" and "CHR ''='' \<notin> set (fst c)" by (auto simp: wf_jar_def)
    with Cons.IH row_starts_with_command [of "fst c" "snd c"] show ?case by simp
  qed
  with assms False show ?thesis
    by (simp add: find_command_def split_document_cookie)
qed

lemma find_command_None:
  "wf_jar jar \<Longrightarrow> (find_command jar = None) = (COMMAND_COOKIE \<notin> fst ` set jar)"
  by (force simp: find_command_wf find_None_iff)

lemma wf_update:
  "wf_jar jar \<Longrightarrow> CHR ''='' \<notin> set n \<Longrightarrow> CHR '';'' \<notin> set n \<Longrightarrow> CHR '';'' \<notin> set v
     \<Longrightarrow> wf_jar (AList.update n v jar)"
  unfolding wf_jar_def
  by (induction jar) auto

lemma wf_set_cookie:
  "wf_jar jar \<Longrightarrow> CHR ''='' \<notin> set n \<Longrightarrow> CHR '';'' \<notin> set n \<Longrightarrow> CHR '';'' \<notin> set v
     \<Longrightarrow> wf_jar (set_cookie n v jar)"
  by (simp add: set_cookie_def wf_update)

lemma wf_expire_cookie: "wf_jar jar \<Longrightarrow> wf_jar (expire_cookie n jar)"
  by (auto simp: wf_jar_def expire_cookie_def AList.delete_eq)

lemma names_set_cookie: "fst ` set (set_cookie n v jar) \<subseteq> insert n (fst ` set jar)"
  by (auto simp: set_cookie_def AList.dom_update)

lemma set_cookie_other:
  "k \<noteq> n \<Longrightarrow> k \<notin> fst ` set jar \<Longrightarrow> k \<notin> fst ` set (set_cookie n v jar)"
  using names_set_cookie [of n v jar] by blast

lemma names_expire_cookie: "fst ` set (expire_cookie n jar) = fst ` set jar - {n}"
  by (auto simp: expire_cookie_def AList.delete_eq)

lemma map_of_set_cookie:
  "length n + length v \<le> 4096 \<Longrightarrow> map_of (set_cookie n v jar) = (map_of jar)(n \<mapsto> v)"
  by (simp add: set_cookie_def AList.update_conv')

lemma map_of_expire_cookie: "map_of (expire_cookie n jar) n = None"
  by (simp add: expire_cookie_def AList.delete_conv')

text \<open>
  C1, amended. On every poll that finds a command that parses, the command cookie is
  cleared and the status set to \<open>processing\<close> before \<open>executeCommand\<close> starts: in the
  cookies on which the execution starts the slot is empty, so a poll that runs while
  the command executes, however long that takes, finds no command, and neither does a
  poll after the channel has written the result and the status \<open>done\<close>.
\<close>

theorem command_cleared_before_execution:
  assumes wf: "wf_jar jar" and run: "checkForCommands_start C jar = Executing command jar1"
  shows "map_of jar1 COMMAND_COOKIE = None
     \<and> find_command jar1 = None
     \<and> checkForCommands_start C jar1 = NoCommand
     \<and> map_of jar1 STATUS_COOKIE = Some ''processing''
     \<and> (\<forall>v. CHR '';'' \<notin> set v \<longrightarrow>
           checkForCommands_start C
             (set_cookie STATUS_COOKIE ''done'' (set_cookie RESULT_COOKIE v jar1)) = NoCommand)"
proof -
  from run have jar1: "jar1 = set_cookie STATUS_COOKIE ''processing'' (expire_cookie COMMAND_COOKIE jar)"
    by (auto simp: checkForCommands_start_def split: option.splits sum.splits)
  have wf1: "wf_jar jar1"
    unfolding jar1 using wf
    by (intro wf_set_cookie wf_expire_cookie) (simp_all add: STATUS_COOKIE_def)
  have absent: "COMMAND_COOKIE \<notin> fst ` set jar1"
    unfolding jar1
    by (rule set_cookie_other) (simp_all add: names_expire_cookie STATUS_COOKIE_def COMMAND_COOKIE_def)
  have none: "find_command jar1 = None"
    using wf1 absent by (simp add: find_command_None)
  have "map_of jar1 COMMAND_COOKIE = None"
    using absent by (simp add: map_of_eq_None_iff)
  moreover have "checkForCommands_start C jar1 = NoCommand"
    using none by (simp add: checkForCommands_start_def)
  moreover have "map_of jar1 STATUS_COOKIE = Some ''processing''"
    by (simp add: jar1 map_of_set_cookie STATUS_COOKIE_def)
  moreover have "checkForCommands_start C
             (set_cookie STATUS_COOKIE ''done'' (set_cookie RESULT_COOKIE v jar1)) = NoCommand"
    if v: "CHR '';'' \<notin> set v" for v
  proof -
    have "wf_jar (set_cookie STATUS_COOKIE ''done'' (set_cookie RESULT_COOKIE v jar1))"
      using wf1 v by (intro wf_set_cookie) (simp_all add: STATUS_COOKIE_def RESULT_COOKIE_def)
    moreover have "COMMAND_COOKIE \<notin> fst ` set (set_cookie STATUS_COOKIE ''done'' (set_cookie RESULT_COOKIE v jar1))"
      using absent
      by (intro set_cookie_other) (simp_all add: STATUS_COOKIE_def COMMAND_COOKIE_def RESULT_COOKIE_def)
    ultimately have "find_command (set_cookie STATUS_COOKIE ''done'' (set_cookie RESULT_COOKIE v jar1)) = None"
      using find_command_None by blast
    then show ?thesis
      by (simp add: checkForCommands_start_def)
  qed
  ultimately show ?thesis
    using none by blast
qed


theorem command_cleared_before_execution_witness:
  "checkForCommands_start example_codec
      [(''other'', ''1''),
       (''pw_cmd'', ''%7B%22action%22%3A%22click%22%2C%22selector%22%3A%22%23go%22%7D''),
       (''pw_status'', ''done'')]
    = Executing (JObj [(''action'', JStr ''click''), (''selector'', JStr ''#go'')])
        [(''other'', ''1''), (''pw_status'', ''processing'')]
   \<and> find_command [(''other'', ''1''), (''pw_status'', ''processing'')] = None
   \<and> checkForCommands_start example_codec [(''other'', ''1''), (''pw_status'', ''processing'')]
       = NoCommand"
proof -
  let ?jar = "[(''other'', ''1''),
       (''pw_cmd'', ''%7B%22action%22%3A%22click%22%2C%22selector%22%3A%22%23go%22%7D''),
       (''pw_status'', ''done'')]"
  have wf: "wf_jar ?jar"
    by (simp add: wf_jar_def)
  have run: "checkForCommands_start example_codec ?jar
    = Executing (JObj [(''action'', JStr ''click''), (''selector'', JStr ''#go'')])
        [(''other'', ''1''), (''pw_status'', ''processing'')]"
    by (simp add: checkForCommands_start_def find_command_def document_cookie_def cookie_row_def
        js_split_def startsWith_def COMMAND_COOKIE_def STATUS_COOKIE_def example_codec_def
        set_cookie_def expire_cookie_def)
  from command_cleared_before_execution [OF wf run] run show ?thesis
    by simp
qed

text \<open>
  The claim C1 as stated fails for a command that does not parse: the poll finds the
  cookie \<open>pw_cmd=%7B\<close>, writes the parse error and the status \<open>error\<close>, and leaves the
  command cookie in place, where the next poll finds it again.
\<close>

theorem unparsable_command_counterexample:
  "checkForCommands_start example_codec [(''pw_cmd'', ''%7B'')]
    = ParseFailed (Inr [(''pw_cmd'', ''%7B''),
        (''pw_result'',
         ''%7B%22error%22%3A%22Command%20parse%20error%22%2C%22message%22%3A%22Unexpected%20end%20of%20JSON%20input%22%7D''),
        (''pw_status'', ''error'')])
   \<and> find_command [(''pw_cmd'', ''%7B''),
        (''pw_result'',
         ''%7B%22error%22%3A%22Command%20parse%20error%22%2C%22message%22%3A%22Unexpected%20end%20of%20JSON%20input%22%7D''),
        (''pw_status'', ''error'')] = Some ''pw_cmd=%7B''"
  by (simp add: checkForCommands_start_def find_command_def document_cookie_def cookie_row_def
        js_split_def startsWith_def COMMAND_COOKIE_def STATUS_COOKIE_def RESULT_COOKIE_def
        example_codec_def set_cookie_def catch_block_def errorResult_def percent_def unreserved_def json_quote_def)

section \<open>checkForCommands: exceptions\<close>

lemma catch_block_ok:
  assumes "stringify_encode C (errorResult e) = Inr s"
  shows "catch_block C e jar = Inr (set_cookie STATUS_COOKIE ''error'' (set_cookie RESULT_COOKIE s jar))"
  using assms by (simp add: catch_block_def)

lemma status_written:
  "st = ''done'' \<or> st = ''error'' \<Longrightarrow> map_of (set_cookie STATUS_COOKIE st jar) STATUS_COOKIE = Some st"
  by (auto simp: set_cookie_def STATUS_COOKIE_def AList.update_conv')

lemma result_written:
  assumes "length RESULT_COOKIE + length s \<le> 4096"
  shows "map_of (set_cookie STATUS_COOKIE st (set_cookie RESULT_COOKIE s jar)) RESULT_COOKIE = Some s"
  using assms
  by (simp add: set_cookie_def STATUS_COOKIE_def RESULT_COOKIE_def AList.update_conv')

lemma result_dropped:
  "4096 < length RESULT_COOKIE + length s \<Longrightarrow> set_cookie RESULT_COOKIE s jar = jar"
  by (simp add: set_cookie_def)

lemma executeCommand_catches:
  "switch_action E page sandbox cmd = Some (Inl e) \<Longrightarrow>
     executeCommand E page sandbox cmd = Some (caught_result e, [])"
  by (simp add: executeCommand_def)

lemma custom_rejection_caught:
  assumes "member cmd ''action'' = JStr ''custom''" and "sandbox (member cmd ''code'') = Some (Inl e)"
  shows "executeCommand E page sandbox cmd = Some (caught_result e, [])"
  using assms member_action_not_nullish [OF assms(1)]
  by (simp add: executeCommand_def switch_action_def case_custom_def)

lemma finish_never_throws:
  assumes enc: "\<forall>m. \<exists>s. stringify_encode C
      (JObj [(''error'', JStr ''Command parse error''), (''message'', JStr m)]) = Inr s"
  shows "\<exists>s st. checkForCommands_finish C r jar
           = Inr (set_cookie STATUS_COOKIE st (set_cookie RESULT_COOKIE s jar))
         \<and> (st = ''done'' \<and> stringify_encode C r = Inr s
            \<or> st = ''error'' \<and> (\<exists>e. stringify_encode C r = Inl e \<and> stringify_encode C (errorResult e) = Inr s))"
proof (cases "stringify_encode C r")
  case (Inl e)
  from enc obtain s where "stringify_encode C (errorResult e) = Inr s"
    unfolding errorResult_def by blast
  with Inl show ?thesis
    by (simp add: checkForCommands_finish_def catch_block_ok)
next
  case (Inr s)
  then show ?thesis
    by (simp add: checkForCommands_finish_def)
qed

lemma finish_written:
  assumes "stringify_encode C r = Inr s"
  shows "checkForCommands_finish C r jar
    = Inr (set_cookie STATUS_COOKIE ''done'' (set_cookie RESULT_COOKIE s jar))"
  using assms by (simp add: checkForCommands_finish_def)

lemma run_with_command:
  assumes "find_command jar = Some row"
    and "decode_parse C (at_index (js_split ''='' row) 1) = Inr cmd"
  shows "checkForCommands C E page sandbox jar =
    (case executeCommand E page sandbox cmd of
       None \<Rightarrow> None
     | Some (result, effects) \<Rightarrow>
         Some (case checkForCommands_finish C result
                      (set_cookie STATUS_COOKIE ''processing'' (expire_cookie COMMAND_COOKIE jar)) of
                 Inl e \<Rightarrow> Inl e
               | Inr jar2 \<Rightarrow> Inr (jar2, effects)))"
  using assms by (simp add: checkForCommands_def checkForCommands_start_def)

lemma run_parse_failure:
  assumes "find_command jar = Some row"
    and "decode_parse C (at_index (js_split ''='' row) 1) = Inl e"
  shows "checkForCommands C E page sandbox jar =
    Some (case catch_block C e jar of Inl e' \<Rightarrow> Inl e' | Inr jar' \<Rightarrow> Inr (jar', []))"
  using assms by (simp add: checkForCommands_def checkForCommands_start_def)

lemma percent_length: "length t \<le> length (concat (map percent t))"
  by (induction t) (auto simp: percent_def)

lemma quote_length: "length m \<le> length (json_quote m)"
proof -
  have "length m \<le> length (concat (map (\<lambda>c. if c = CHR 0x22 \<or> c = CHR 0x5C then [CHR 0x5C, c] else [c]) m))"
    by (induction m) auto
  then show ?thesis by (simp add: json_quote_def)
qed

lemma join_head: "length x \<le> length (join sep (x # xs))"
  by (cases xs) simp_all

lemma encoded_length:
  "\<exists>s. stringify_encode example_codec (JObj [(''error'', JStr m), (''stack'', st)]) = Inr s
     \<and> length m \<le> length s"
proof -
  have "\<exists>rest. json_text (JObj [(''error'', JStr m), (''stack'', st)])
      = Some (''{'' @ join '','' ((json_quote ''error'' @ '':'' @ json_quote m) # rest) @ ''}'')"
  proof (cases "json_text st")
    case None
    then show ?thesis by (intro exI [of _ "[]"]) simp
  next
    case (Some a)
    then show ?thesis by (intro exI [of _ "[json_quote ''stack'' @ '':'' @ a]"]) simp
  qed
  then obtain rest where t: "json_text (JObj [(''error'', JStr m), (''stack'', st)])
      = Some (''{'' @ join '','' ((json_quote ''error'' @ '':'' @ json_quote m) # rest) @ ''}'')"
    by blast
  have "length m \<le> length (json_quote m)"
    by (rule quote_length)
  also have "\<dots> \<le> length (json_quote ''error'' @ '':'' @ json_quote m)"
    by simp
  also have "\<dots> \<le> length (join '','' ((json_quote ''error'' @ '':'' @ json_quote m) # rest))"
    by (rule join_head)
  also have "\<dots> \<le> length (''{'' @ join '','' ((json_quote ''error'' @ '':'' @ json_quote m) # rest) @ ''}'')"
    by simp
  also have "\<dots> \<le> length (concat (map percent
      (''{'' @ join '','' ((json_quote ''error'' @ '':'' @ json_quote m) # rest) @ ''}'')))"
    by (rule percent_length)
  finally show ?thesis
    using t by (simp add: example_codec_def)
qed

lemma run_writes:
  assumes "find_command jar = Some row"
    and "decode_parse C (at_index (js_split ''='' row) 1) = Inr cmd"
    and "executeCommand E page sandbox cmd = Some (r, effs)"
    and "stringify_encode C r = Inr s"
  shows "checkForCommands C E page sandbox jar
    = Some (Inr (set_cookie STATUS_COOKIE ''done'' (set_cookie RESULT_COOKIE s
              (set_cookie STATUS_COOKIE ''processing'' (expire_cookie COMMAND_COOKIE jar))), effs))"
  by (simp add: run_with_command [OF assms(1,2)] assms(3) finish_written [OF assms(4)])

lemma oversize_dropped:
  assumes "find_command jar = Some row"
    and "decode_parse C (at_index (js_split ''='' row) 1) = Inr cmd"
    and "executeCommand E page sandbox cmd = Some (r, effs)"
    and "stringify_encode C r = Inr s"
    and "4096 < length RESULT_COOKIE + length s"
  shows "checkForCommands C E page sandbox jar
    = Some (Inr (set_cookie STATUS_COOKIE ''done''
              (set_cookie STATUS_COOKIE ''processing'' (expire_cookie COMMAND_COOKIE jar)), effs))"
  by (simp add: run_writes [OF assms(1-4)] result_dropped [OF assms(5)])

text \<open>
  The claim C7 as stated fails for a result that does not fit in a cookie. The command
  \<open>{action: "custom", code: "throw new Error(Array(5000).join(0))"}\<close> makes the executor
  throw an error whose message is 4999 characters long, and \<open>execute\<close> rejects with it;
  \<open>executeCommand\<close> turns the rejection into \<open>{error, stack}\<close>, whose encoding is longer
  than 4096 bytes, the browser ignores the assignment of the result cookie, and the run
  ends with the status \<open>done\<close> and no result written.
\<close>

theorem oversize_result_counterexample:
  "checkForCommands example_codec example_engine (\<lambda>i. empty_document)
      (\<lambda>code. Some (Inl (Exn (replicate 4999 CHR ''0'')
                              (JStr (''Error: '' @ replicate 4999 CHR ''0'')))))
      [(''pw_cmd'',
        ''%7B%22action%22%3A%22custom%22%2C%22code%22%3A%22throw%20new%20Error(Array(5000).join(0))%22%7D'')]
    = Some (Inr ([(''pw_status'', ''done'')], []))
   \<and> map_of [(''pw_status'', ''done'')] RESULT_COOKIE = None"
proof -
  let ?e = "Exn (replicate 4999 CHR ''0'') (JStr (''Error: '' @ replicate 4999 CHR ''0''))"
  let ?sandbox = "\<lambda>code::jsval. Some (Inl ?e :: exn + jsval)"
  let ?cmd = "JObj [(''action'', JStr ''custom''),
                    (''code'', JStr ''throw new Error(Array(5000).join(0))'')]"
  let ?jar = "[(''pw_cmd'',
        ''%7B%22action%22%3A%22custom%22%2C%22code%22%3A%22throw%20new%20Error(Array(5000).join(0))%22%7D'')]"
  let ?result = "JObj [(''error'', JStr (replicate 4999 CHR ''0'')),
                       (''stack'', JStr (''Error: '' @ replicate 4999 CHR ''0''))]"
  have f: "find_command ?jar = Some
      ''pw_cmd=%7B%22action%22%3A%22custom%22%2C%22code%22%3A%22throw%20new%20Error(Array(5000).join(0))%22%7D''"
    by (simp add: find_command_def document_cookie_def cookie_row_def js_split_def startsWith_def
        COMMAND_COOKIE_def)
  have p: "decode_parse example_codec (at_index (js_split ''=''
      ''pw_cmd=%7B%22action%22%3A%22custom%22%2C%22code%22%3A%22throw%20new%20Error(Array(5000).join(0))%22%7D'') 1)
      = Inr ?cmd"
    by (simp add: js_split_def example_codec_def)
  have x: "executeCommand example_engine (\<lambda>i. empty_document) ?sandbox ?cmd = Some (?result, [])"
    by (simp add: executeCommand_def switch_action_def case_custom_def caught_result_def)
  obtain s where s: "stringify_encode example_codec ?result = Inr s"
    and long: "4999 \<le> length s"
    using encoded_length [of "replicate 4999 CHR ''0''" "JStr (''Error: '' @ replicate 4999 CHR ''0'')"]
    by auto
  from long have dropped: "set_cookie RESULT_COOKIE s j = j" for j
    by (simp add: set_cookie_def)
  have run: "checkForCommands example_codec example_engine (\<lambda>i. empty_document) ?sandbox ?jar
      = Some (Inr (set_cookie STATUS_COOKIE ''done''
                (set_cookie STATUS_COOKIE ''processing'' (expire_cookie COMMAND_COOKIE ?jar)), []))"
    using run_writes [OF f p x s] unfolding dropped .
  have jar: "set_cookie STATUS_COOKIE ''done''
      (set_cookie STATUS_COOKIE ''processing'' (expire_cookie COMMAND_COOKIE ?jar))
      = [(''pw_status'', ''done'')]"
    by (simp add: set_cookie_def expire_cookie_def STATUS_COOKIE_def COMMAND_COOKIE_def)
  have none: "map_of [(''pw_status'', ''done'')] RESULT_COOKIE = None"
    by (simp add: RESULT_COOKIE_def)
  show ?thesis
    by (intro conjI) (rule run [unfolded jar], rule none)
qed

text \<open>
  C7, amended. With a \<open>JSON.stringify\<close> that serialises the two-string error object of
  the \<open>catch\<close> block, a run of \<open>checkForCommands\<close> never throws. When it finds no command
  it writes nothing. When it finds one, the run ends exactly when \<open>executeCommand\<close>
  returns, and then with the status \<open>done\<close> or \<open>error\<close>. Whatever the body of
  \<open>executeCommand\<close> throws is returned as \<open>{error, stack}\<close>, and so is the rejection of
  \<open>execute\<close> in the \<open>custom\<close> case; the result of the command is written to the
  result cookie with the status \<open>done\<close> when its encoding fits in a cookie. A command
  that does not parse is written back as \<open>{error: "Command parse error", message}\<close> with
  the status \<open>error\<close>, under the same condition.
\<close>

theorem channel_never_throws:
  assumes enc: "\<forall>m. \<exists>s. stringify_encode C
      (JObj [(''error'', JStr ''Command parse error''), (''message'', JStr m)]) = Inr s"
  shows "(\<forall>e. checkForCommands C E page sandbox jar \<noteq> Some (Inl e))
    \<and> (find_command jar = None \<longrightarrow> checkForCommands C E page sandbox jar = Some (Inr (jar, [])))
    \<and> (\<forall>jar' effs. find_command jar \<noteq> None
            \<and> checkForCommands C E page sandbox jar = Some (Inr (jar', effs)) \<longrightarrow>
            map_of jar' STATUS_COOKIE = Some ''done'' \<or> map_of jar' STATUS_COOKIE = Some ''error'')
    \<and> ((checkForCommands C E page sandbox jar = None) =
          (\<exists>row cmd. find_command jar = Some row
              \<and> decode_parse C (at_index (js_split ''='' row) 1) = Inr cmd
              \<and> executeCommand E page sandbox cmd = None))
    \<and> (\<forall>cmd e. switch_action E page sandbox cmd = Some (Inl e) \<longrightarrow>
            executeCommand E page sandbox cmd
              = Some (JObj [(''error'', JStr (message e)), (''stack'', stack e)], []))
    \<and> (\<forall>cmd e. member cmd ''action'' = JStr ''custom''
            \<and> sandbox (member cmd ''code'') = Some (Inl e) \<longrightarrow>
            executeCommand E page sandbox cmd
              = Some (JObj [(''error'', JStr (message e)), (''stack'', stack e)], []))
    \<and> (\<forall>row cmd r effs s. find_command jar = Some row
            \<and> decode_parse C (at_index (js_split ''='' row) 1) = Inr cmd
            \<and> executeCommand E page sandbox cmd = Some (r, effs)
            \<and> stringify_encode C r = Inr s
            \<and> length RESULT_COOKIE + length s \<le> 4096 \<longrightarrow>
            (\<exists>jar'. checkForCommands C E page sandbox jar = Some (Inr (jar', effs))
               \<and> map_of jar' RESULT_COOKIE = Some s \<and> map_of jar' STATUS_COOKIE = Some ''done''))
    \<and> (\<forall>row e s. find_command jar = Some row
            \<and> decode_parse C (at_index (js_split ''='' row) 1) = Inl e
            \<and> stringify_encode C
                 (JObj [(''error'', JStr ''Command parse error''), (''message'', JStr (message e))])
                 = Inr s
            \<and> length RESULT_COOKIE + length s \<le> 4096 \<longrightarrow>
            (\<exists>jar'. checkForCommands C E page sandbox jar = Some (Inr (jar', []))
               \<and> map_of jar' RESULT_COOKIE = Some s \<and> map_of jar' STATUS_COOKIE = Some ''error''))"
proof -
  have shape: "checkForCommands C E page sandbox jar = Some (Inr (jar, [])) \<and> find_command jar = None
      \<or> (\<exists>row cmd. find_command jar = Some row
              \<and> decode_parse C (at_index (js_split ''='' row) 1) = Inr cmd
              \<and> executeCommand E page sandbox cmd = None
              \<and> checkForCommands C E page sandbox jar = None)
      \<or> (\<exists>jar0 s st effs. find_command jar \<noteq> None
              \<and> checkForCommands C E page sandbox jar
                  = Some (Inr (set_cookie STATUS_COOKIE st (set_cookie RESULT_COOKIE s jar0), effs))
              \<and> (st = ''done'' \<or> st = ''error''))"
  proof (cases "find_command jar")
    case None
    then show ?thesis
      by (simp add: checkForCommands_def checkForCommands_start_def)
  next
    case (Some row)
    show ?thesis
    proof (cases "decode_parse C (at_index (js_split ''='' row) 1)")
      case (Inl e)
      from enc obtain s where "stringify_encode C (errorResult e) = Inr s"
        unfolding errorResult_def by blast
      then have "checkForCommands C E page sandbox jar
          = Some (Inr (set_cookie STATUS_COOKIE ''error'' (set_cookie RESULT_COOKIE s jar), []))"
        by (simp add: run_parse_failure [OF Some Inl] catch_block_ok)
      with Some show ?thesis by blast
    next
      case (Inr cmd)
      note run = run_with_command [OF Some Inr, of E page sandbox]
      show ?thesis
      proof (cases "executeCommand E page sandbox cmd")
        case None
        with run have "checkForCommands C E page sandbox jar = None" by simp
        with Some Inr None show ?thesis by blast
      next
        case x: (Some re)
        obtain r effs where re: "re = (r, effs)" by (cases re)
        from finish_never_throws [OF enc]
        obtain s st where f: "checkForCommands_finish C r
               (set_cookie STATUS_COOKIE ''processing'' (expire_cookie COMMAND_COOKIE jar))
             = Inr (set_cookie STATUS_COOKIE st (set_cookie RESULT_COOKIE s
                 (set_cookie STATUS_COOKIE ''processing'' (expire_cookie COMMAND_COOKIE jar))))"
          and st: "st = ''done'' \<or> st = ''error''"
          by blast
        from run x re f have "checkForCommands C E page sandbox jar
            = Some (Inr (set_cookie STATUS_COOKIE st (set_cookie RESULT_COOKIE s
                 (set_cookie STATUS_COOKIE ''processing'' (expire_cookie COMMAND_COOKIE jar))), effs))"
          by simp
        with Some st show ?thesis by blast
      qed
    qed
  qed
  show ?thesis
  proof (intro conjI allI impI)
    fix e
    from shape show "checkForCommands C E page sandbox jar \<noteq> Some (Inl e)"
      by auto
  next
    assume "find_command jar = None"
    then show "checkForCommands C E page sandbox jar = Some (Inr (jar, []))"
      by (simp add: checkForCommands_def checkForCommands_start_def)
  next
    fix jar' effs
    assume h: "find_command jar \<noteq> None
            \<and> checkForCommands C E page sandbox jar = Some (Inr (jar', effs))"
    with shape obtain jar0 s st where "jar' = set_cookie STATUS_COOKIE st (set_cookie RESULT_COOKIE s jar0)"
      and st: "st = ''done'' \<or> st = ''error''"
      by auto
    with status_written [OF st]
    show "map_of jar' STATUS_COOKIE = Some ''done'' \<or> map_of jar' STATUS_COOKIE = Some ''error''"
      by auto
  next
    show "(checkForCommands C E page sandbox jar = None) =
          (\<exists>row cmd. find_command jar = Some row
              \<and> decode_parse C (at_index (js_split ''='' row) 1) = Inr cmd
              \<and> executeCommand E page sandbox cmd = None)"
    proof
      assume "checkForCommands C E page sandbox jar = None"
      with shape show "\<exists>row cmd. find_command jar = Some row
              \<and> decode_parse C (at_index (js_split ''='' row) 1) = Inr cmd
              \<and> executeCommand E page sandbox cmd = None"
        by auto
    next
      assume "\<exists>row cmd. find_command jar = Some row
              \<and> decode_parse C (at_index (js_split ''='' row) 1) = Inr cmd
              \<and> executeCommand E page sandbox cmd = None"
      then obtain row cmd where a: "find_command jar = Some row"
        and b: "decode_parse C (at_index (js_split ''='' row) 1) = Inr cmd"
        and c: "executeCommand E page sandbox cmd = None"
        by blast
      show "checkForCommands C E page sandbox jar = None"
        by (simp add: run_with_command [OF a b] c)
    qed
  next
    fix cmd e
    assume "switch_action E page sandbox cmd = Some (Inl e)"
    then show "executeCommand E page sandbox cmd
              = Some (JObj [(''error'', JStr (message e)), (''stack'', stack e)], [])"
      by (simp add: executeCommand_catches caught_result_def)
  next
    fix cmd e
    assume "member cmd ''action'' = JStr ''custom''
            \<and> sandbox (member cmd ''code'') = Some (Inl e)"
    then show "executeCommand E page sandbox cmd
              = Some (JObj [(''error'', JStr (message e)), (''stack'', stack e)], [])"
      by (simp add: custom_rejection_caught caught_result_def)
  next
    fix row cmd r effs s
    assume h: "find_command jar = Some row
            \<and> decode_parse C (at_index (js_split ''='' row) 1) = Inr cmd
            \<and> executeCommand E page sandbox cmd = Some (r, effs)
            \<and> stringify_encode C r = Inr s
            \<and> length RESULT_COOKIE + length s \<le> 4096"
    then have a: "find_command jar = Some row"
      and b: "decode_parse C (at_index (js_split ''='' row) 1) = Inr cmd"
      and x: "executeCommand E page sandbox cmd = Some (r, effs)"
      and s: "stringify_encode C r = Inr s"
      and fits: "length RESULT_COOKIE + length s \<le> 4096"
      by simp_all
    have "checkForCommands C E page sandbox jar
        = Some (Inr (set_cookie STATUS_COOKIE ''done'' (set_cookie RESULT_COOKIE s
            (set_cookie STATUS_COOKIE ''processing'' (expire_cookie COMMAND_COOKIE jar))), effs))"
      by (simp add: run_with_command [OF a b] x finish_written [OF s])
    with result_written [OF fits] status_written [of "''done''"]
    show "\<exists>jar'. checkForCommands C E page sandbox jar = Some (Inr (jar', effs))
               \<and> map_of jar' RESULT_COOKIE = Some s \<and> map_of jar' STATUS_COOKIE = Some ''done''"
      by simp
  next
    fix row e s
    assume h: "find_command jar = Some row
            \<and> decode_parse C (at_index (js_split ''='' row) 1) = Inl e
            \<and> stringify_encode C
                 (JObj [(''error'', JStr ''Command parse error''), (''message'', JStr (message e))])
                 = Inr s
            \<and> length RESULT_COOKIE + length s \<le> 4096"
    then have a: "find_command jar = Some row"
      and b: "decode_parse C (at_index (js_split ''='' row) 1) = Inl e"
      and s: "stringify_encode C (errorResult e) = Inr s"
      and fits: "length RESULT_COOKIE + length s \<le> 4096"
      by (simp_all add: errorResult_def)
    have "checkForCommands C E page sandbox jar
        = Some (Inr (set_cookie STATUS_COOKIE ''error'' (set_cookie RESULT_COOKIE s jar), []))"
      by (simp add: run_parse_failure [OF a b] catch_block_ok [OF s])
    with result_written [OF fits] status_written [of "''error''"]
    show "\<exists>jar'. checkForCommands C E page sandbox jar = Some (Inr (jar', []))
               \<and> map_of jar' RESULT_COOKIE = Some s \<and> map_of jar' STATUS_COOKIE = Some ''error''"
      by simp
  qed
qed

lemma example_codec_total:
  "\<forall>m. \<exists>s. stringify_encode example_codec
      (JObj [(''error'', JStr ''Command parse error''), (''message'', JStr m)]) = Inr s"
  by (simp add: example_codec_def)

theorem channel_never_throws_witness:
  "(\<exists>jar'. checkForCommands example_codec example_engine (\<lambda>i. empty_document)
        (\<lambda>code. None) [(''pw_cmd'', ''null'')] = Some (Inr (jar', []))
      \<and> map_of jar' RESULT_COOKIE = Some
          ''%7B%22error%22%3A%22Cannot%20read%20properties%20of%20null%20(reading%20action)%22%2C%22stack%22%3A%22TypeError%22%7D''
      \<and> map_of jar' STATUS_COOKIE = Some ''done'')
   \<and> (\<exists>jar'. checkForCommands example_codec example_engine (\<lambda>i. empty_document)
        (\<lambda>code. None) [(''pw_cmd'', ''%7B'')] = Some (Inr (jar', []))
      \<and> map_of jar' RESULT_COOKIE = Some
          ''%7B%22error%22%3A%22Command%20parse%20error%22%2C%22message%22%3A%22Unexpected%20end%20of%20JSON%20input%22%7D''
      \<and> map_of jar' STATUS_COOKIE = Some ''error'')
   \<and> executeCommand example_engine (\<lambda>i. empty_document) (\<lambda>code. None) JNull
       = Some (JObj [(''error'', JStr ''Cannot read properties of null (reading action)''),
                     (''stack'', JStr ''TypeError'')], [])"
proof -
  let ?e = "Exn ''Cannot read properties of null (reading action)'' (JStr ''TypeError'')"
  let ?p = "Exn ''Unexpected end of JSON input'' (JStr ''SyntaxError'')"
  have f1: "find_command [(''pw_cmd'', ''null'')] = Some ''pw_cmd=null''"
    by (simp add: find_command_def document_cookie_def cookie_row_def js_split_def startsWith_def
        COMMAND_COOKIE_def)
  have p1: "decode_parse example_codec (at_index (js_split ''='' ''pw_cmd=null'') 1) = Inr JNull"
    by (simp add: js_split_def example_codec_def)
  have t1: "switch_action example_engine (\<lambda>i. empty_document) (\<lambda>code. None) JNull = Some (Inl ?e)"
    by (simp add: switch_action_def example_engine_def)
  have s1: "stringify_encode example_codec (JObj [(''error'', JStr (message ?e)), (''stack'', stack ?e)]) = Inr
      ''%7B%22error%22%3A%22Cannot%20read%20properties%20of%20null%20(reading%20action)%22%2C%22stack%22%3A%22TypeError%22%7D''"
    by (simp add: example_codec_def percent_def unreserved_def json_quote_def)
  have l1: "length RESULT_COOKIE + length
      ''%7B%22error%22%3A%22Cannot%20read%20properties%20of%20null%20(reading%20action)%22%2C%22stack%22%3A%22TypeError%22%7D''
      \<le> 4096"
    by (simp add: RESULT_COOKIE_def)
  have f2: "find_command [(''pw_cmd'', ''%7B'')] = Some ''pw_cmd=%7B''"
    by (simp add: find_command_def document_cookie_def cookie_row_def js_split_def startsWith_def
        COMMAND_COOKIE_def)
  have p2: "decode_parse example_codec (at_index (js_split ''='' ''pw_cmd=%7B'') 1) = Inl ?p"
    by (simp add: js_split_def example_codec_def)
  have s2: "stringify_encode example_codec
      (JObj [(''error'', JStr ''Command parse error''), (''message'', JStr (message ?p))]) = Inr
      ''%7B%22error%22%3A%22Command%20parse%20error%22%2C%22message%22%3A%22Unexpected%20end%20of%20JSON%20input%22%7D''"
    by (simp add: example_codec_def percent_def unreserved_def json_quote_def)
  have l2: "length RESULT_COOKIE + length
      ''%7B%22error%22%3A%22Command%20parse%20error%22%2C%22message%22%3A%22Unexpected%20end%20of%20JSON%20input%22%7D''
      \<le> 4096"
    by (simp add: RESULT_COOKIE_def)
  note a = channel_never_throws [OF example_codec_total, of example_engine "\<lambda>i. empty_document"
      "\<lambda>code. None" "[(''pw_cmd'', ''null'')]"]
  note b = channel_never_throws [OF example_codec_total, of example_engine "\<lambda>i. empty_document"
      "\<lambda>code. None" "[(''pw_cmd'', ''%7B'')]"]
  from a t1 have x1: "executeCommand example_engine (\<lambda>i. empty_document) (\<lambda>code. None) JNull
       = Some (JObj [(''error'', JStr (message ?e)), (''stack'', stack ?e)], [])"
    by blast
  from a f1 p1 x1 s1 l1 have "\<exists>jar'. checkForCommands example_codec example_engine (\<lambda>i. empty_document)
        (\<lambda>code. None) [(''pw_cmd'', ''null'')] = Some (Inr (jar', []))
      \<and> map_of jar' RESULT_COOKIE = Some
          ''%7B%22error%22%3A%22Cannot%20read%20properties%20of%20null%20(reading%20action)%22%2C%22stack%22%3A%22TypeError%22%7D''
      \<and> map_of jar' STATUS_COOKIE = Some ''done''"
    by blast
  moreover from b f2 p2 s2 l2 have "\<exists>jar'. checkForCommands example_codec example_engine (\<lambda>i. empty_document)
        (\<lambda>code. None) [(''pw_cmd'', ''%7B'')] = Some (Inr (jar', []))
      \<and> map_of jar' RESULT_COOKIE = Some
          ''%7B%22error%22%3A%22Command%20parse%20error%22%2C%22message%22%3A%22Unexpected%20end%20of%20JSON%20input%22%7D''
      \<and> map_of jar' STATUS_COOKIE = Some ''error''"
    by blast
  moreover from x1 have "executeCommand example_engine (\<lambda>i. empty_document) (\<lambda>code. None) JNull
       = Some (JObj [(''error'', JStr ''Cannot read properties of null (reading action)''),
                     (''stack'', JStr ''TypeError'')], [])"
    by simp
  ultimately show ?thesis by blast
qed

section \<open>The listener: messages of other windows\<close>

text \<open>
  What the guard of the listener does: a message whose source is not identical to
  \<open>this.iframe.contentWindow\<close> is ignored, whatever its type and data. While the iframe
  is in the document, that is every message that does not come from its window.
\<close>

lemma foreign_messages_ignored:
  assumes "source event \<noteq> contentWindow b"
  shows "setupIframe_listener E P b event = Returned b"
  using assms by (simp add: setupIframe_listener_def)

lemma attached_iframe_filters:
  assumes "contentWindow b = Some w" and "source event \<noteq> Some w"
  shows "setupIframe_listener E P b event = Returned b
    \<and> ready (after (setupIframe_listener E P b event)) = ready b
    \<and> pendingExecutions (after (setupIframe_listener E P b event)) = pendingExecutions b
    \<and> promises (after (setupIframe_listener E P b event)) = promises b
    \<and> posted (after (setupIframe_listener E P b event)) = posted b"
  using assms by (simp add: setupIframe_listener_def)

text \<open>
  C5 fails on the code once the iframe is out of the document (a script of the page
  can remove it): \<open>this.iframe.contentWindow\<close> is then \<open>null\<close>, and a message event that
  no window posted has the source \<open>null\<close> too, so the test \<open>event.source !==
  this.iframe.contentWindow\<close> lets it through. Such a \<open>SANDBOX_READY\<close> sets the
  readiness flag, and such an \<open>EXECUTION_RESULT\<close> with the id of a pending execution
  removes its record and resolves its promise with the forged result.
\<close>

theorem detached_iframe_accepts_sourceless_message:
  "setupIframe_listener example_engine example_page
      (example_bridge\<lparr>contentWindow := None, ready := False\<rparr>)
      \<lparr>source = None, data = JObj [(''type'', JStr ''SANDBOX_READY'')]\<rparr>
     = Returned (example_bridge\<lparr>contentWindow := None, ready := True\<rparr>)
   \<and> ready (example_bridge\<lparr>contentWindow := None, ready := False\<rparr>) = False
   \<and> setupIframe_listener example_engine example_page
      (one_pending\<lparr>contentWindow := None\<rparr>)
      \<lparr>source = None,
        data = JObj [(''type'', JStr ''EXECUTION_RESULT''), (''id'', JStr ''exec_1000_aaaaaaaaa''),
                     (''result'', JStr ''forged'')]\<rparr>
     = Returned (one_pending\<lparr>contentWindow := None, pendingExecutions := [],
                              promises := [(0, Resolved (JStr ''forged''))]\<rparr>)"
  by (simp add: setupIframe_listener_def example_bridge_def one_pending_def
      execution_response_def pending_get_def pending_delete_def settle_def)

section \<open>The listener: CUSTOM_QUERY\<close>

lemma traverse_stops: "nullish obj \<Longrightarrow> traverse E P obj parts = Inr obj"
  by (cases parts) simp_all

lemma custom_query_answered:
  assumes "source event = contentWindow b" and "contentWindow b = Some w"
    and "member (data event) ''type'' = JStr ''CUSTOM_QUERY''"
    and "cloneable (member (data event) ''id'')"
    and "cloneable (custom_query E P (member (data event) ''queryPath''))"
  shows "setupIframe_listener E P b event
    = Returned (b\<lparr>posted := posted b @
        [DOM_RESULT (member (data event) ''id'') (custom_query E P (member (data event) ''queryPath''))]\<rparr>)"
  using assms member_action_not_nullish [OF assms(3)]
  by (simp add: setupIframe_listener_def postMessage_def DOM_RESULT_def)

lemma custom_query_not_cloneable:
  assumes "source event = contentWindow b" and "contentWindow b = Some w"
    and "member (data event) ''type'' = JStr ''CUSTOM_QUERY''"
    and "\<not> cloneable (custom_query E P (member (data event) ''queryPath''))"
  shows "setupIframe_listener E P b event
    = Threw (data_clone_error E
        (DOM_RESULT (member (data event) ''id'') (custom_query E P (member (data event) ''queryPath'')))) b"
  using assms member_action_not_nullish [OF assms(3)]
  by (simp add: setupIframe_listener_def postMessage_def DOM_RESULT_def)


lemma traverse_index:
  "all_digits part \<Longrightarrow> \<not> nullish obj \<Longrightarrow>
     traverse E P obj (part # parts) =
       (case get_property P obj (parseInt E part) of
          Inl e \<Rightarrow> Inl e
        | Inr v \<Rightarrow> traverse E P v parts)"
  by simp

lemma parseInt_exact:
  "digits_value part \<le> 2 ^ 53 \<Longrightarrow> parseInt E part = JNum (of_nat (digits_value part))"
  by (simp add: parseInt_def)

lemma custom_query_catches:
  "traverse E P (global P) (js_split ''.'' path) = Inl e \<Longrightarrow>
     custom_query E P (JStr path) = JObj [(''error'', JStr (message e))]"
  by (simp add: custom_query_def)

text \<open>
  C8 fails on the code for a path that resolves to an object of the host. For the
  message \<open>{type: "CUSTOM_QUERY", queryPath: "document", id: "q1"}\<close> of the iframe the
  traversal yields \<open>window.document\<close>; \<open>postMessage\<close>, which stands after the \<open>try\<close>,
  throws on it, the listener ends with that exception, and no \<open>DOM_RESULT\<close> is posted.
\<close>

theorem custom_query_document_unanswered:
  "setupIframe_listener example_engine example_page example_bridge
      \<lparr>source = Some 7, data = JObj [(''type'', JStr ''CUSTOM_QUERY''), (''queryPath'', JStr ''document''),
                                (''id'', JStr ''q1'')]\<rparr>
    = Threw (Exn ''The object could not be cloned.'' (JStr ''DataCloneError'')) example_bridge
   \<and> posted (after (setupIframe_listener example_engine example_page example_bridge
      \<lparr>source = Some 7, data = JObj [(''type'', JStr ''CUSTOM_QUERY''), (''queryPath'', JStr ''document''),
                                (''id'', JStr ''q1'')]\<rparr>)) = []"
  by (simp add: setupIframe_listener_def example_bridge_def example_page_def example_engine_def
      postMessage_def DOM_RESULT_def custom_query_def js_split_def all_digits_def)

section \<open>execute: responses are matched by id\<close>

lemma execute_dispatch_Inr:
  assumes "execute_dispatch E now rnd code b = Inr (p, b')"
  shows "ready b \<and> contentWindow b \<noteq> None \<and> p = next_promise b
    \<and> b' = b\<lparr>posted := posted b @ [EXECUTE_CODE code (execution_id now rnd)],
              pendingExecutions := AList.update (execution_id now rnd) p (pendingExecutions b),
              timers := timers b @ [(now + 30000, execution_id now rnd, p)],
              next_promise := p + 1\<rparr>"
  using assms
  by (auto simp: execute_dispatch_def postMessage_def split: if_splits option.splits)

lemma fresh_unsettled:
  "fresh_promises b \<Longrightarrow> next_promise b \<le> p \<Longrightarrow> map_of (promises b) p = None"
  by (force simp: fresh_promises_def map_of_eq_None_iff)

lemma promises_settle:
  "map_of (promises b) p = None \<Longrightarrow>
     map_of (promises (settle p r b)) = (map_of (promises b))(p \<mapsto> r)"
  by (simp add: settle_def AList.update_conv')

lemma settle_fields:
  "contentWindow (settle p r b) = contentWindow b"
  "ready (settle p r b) = ready b"
  "pendingExecutions (settle p r b) = pendingExecutions b"
  "posted (settle p r b) = posted b"
  "timers (settle p r b) = timers b"
  "next_promise (settle p r b) = next_promise b"
  by (simp_all add: settle_def split: option.splits)

lemma answers_data: "answers b ident event \<Longrightarrow> \<not> nullish (data event)"
  by (auto simp: answers_def dest: member_action_not_nullish)

lemma deliver_response:
  assumes r: "response_for b ident event" and p: "map_of (pendingExecutions b) ident = Some p"
  shows "setupIframe_listener E P b event
    = Returned (settle p (reply E (data event))
        (b\<lparr>pendingExecutions := AList.delete ident (pendingExecutions b)\<rparr>))"
proof -
  from r have a: "answers b ident event" by (simp add: response_for_def)
  then have n: "\<not> nullish (data event)" by (rule answers_data)
  from a have s: "source event = contentWindow b" and i: "member (data event) ''id'' = JStr ident"
    and t: "member (data event) ''type'' = JStr ''EXECUTION_RESULT''
         \<or> member (data event) ''type'' = JStr ''EXECUTION_ERROR''"
    by (simp_all add: answers_def)
  from t show ?thesis
  proof
    assume "member (data event) ''type'' = JStr ''EXECUTION_RESULT''"
    with s i n p show ?thesis
      by (simp add: setupIframe_listener_def execution_response_def pending_get_def
          pending_delete_def reply_def)
  next
    assume e: "member (data event) ''type'' = JStr ''EXECUTION_ERROR''"
    with r have "\<not> nullish (member (data event) ''error'')" by (simp add: response_for_def)
    with e s i n p show ?thesis
      by (simp add: setupIframe_listener_def execution_response_def pending_get_def
          pending_delete_def reply_def)
  qed
qed


lemma deliver_two:
  assumes ra: "response_for b ia ea" and rb: "response_for b ib eb" and ne: "ia \<noteq> ib"
    and pa: "map_of (pendingExecutions b) ia = Some qa"
    and pb: "map_of (pendingExecutions b) ib = Some qb"
    and qa: "map_of (promises b) qa = None" and qb: "map_of (promises b) qb = None"
    and nq: "qa \<noteq> qb"
  shows "map_of (promises (after (setupIframe_listener E P
            (after (setupIframe_listener E P b ea)) eb)))
          = (map_of (promises b))(qa \<mapsto> reply E (data ea), qb \<mapsto> reply E (data eb))
     \<and> pendingExecutions (after (setupIframe_listener E P
            (after (setupIframe_listener E P b ea)) eb))
          = AList.delete ib (AList.delete ia (pendingExecutions b))
     \<and> map_of (promises (after (setupIframe_listener E P b ea)))
          = (map_of (promises b))(qa \<mapsto> reply E (data ea))"
proof -
  define b1 where "b1 = settle qa (reply E (data ea))
        (b\<lparr>pendingExecutions := AList.delete ia (pendingExecutions b)\<rparr>)"
  have s1: "setupIframe_listener E P b ea = Returned b1"
    unfolding b1_def using ra pa by (rule deliver_response)
  have m1: "map_of (promises b1) = (map_of (promises b))(qa \<mapsto> reply E (data ea))"
    unfolding b1_def using qa by (simp add: promises_settle)
  have pe1: "pendingExecutions b1 = AList.delete ia (pendingExecutions b)"
    by (simp add: b1_def settle_fields)
  have rb1: "response_for b1 ib eb"
    using rb by (simp add: response_for_def answers_def b1_def settle_fields)
  have pb1: "map_of (pendingExecutions b1) ib = Some qb"
    using pb ne by (simp add: pe1 AList.delete_conv')
  have s2: "setupIframe_listener E P b1 eb
      = Returned (settle qb (reply E (data eb))
          (b1\<lparr>pendingExecutions := AList.delete ib (pendingExecutions b1)\<rparr>))"
    using rb1 pb1 by (rule deliver_response)
  have "map_of (promises (b1\<lparr>pendingExecutions := AList.delete ib (pendingExecutions b1)\<rparr>)) qb = None"
    using qb nq by (simp add: m1)
  then have m2: "map_of (promises (settle qb (reply E (data eb))
          (b1\<lparr>pendingExecutions := AList.delete ib (pendingExecutions b1)\<rparr>)))
      = (map_of (promises b))(qa \<mapsto> reply E (data ea), qb \<mapsto> reply E (data eb))"
    by (simp add: promises_settle m1)
  show ?thesis
    using m1 m2 by (simp add: s1 s2 settle_fields pe1)
qed

text \<open>
  C3. Two calls of \<open>execute\<close> are dispatched one after the other with distinct ids, and
  the executor answers each with a response of the wire format. Whether the first
  call's response arrives first or second, the promise of each call is settled by the
  response that carries its own id, and by nothing else: both orders give the same
  promises and the same (empty again) pending records, and after the second call's
  response alone only the second promise is settled. (An \<open>EXECUTION_ERROR\<close> without an
  error object is outside the wire format: the listener removes the record and then
  throws, and that call never settles.)
\<close>

theorem responses_matched_by_id:
  assumes fresh: "fresh_promises b0"
    and d1: "execute_dispatch E now1 rnd1 code1 b0 = Inr (p1, b1)"
    and d2: "execute_dispatch E now2 rnd2 code2 b1 = Inr (p2, b2)"
    and ids: "execution_id now1 rnd1 \<noteq> execution_id now2 rnd2"
    and r1: "response_for b2 (execution_id now1 rnd1) r1"
    and r2: "response_for b2 (execution_id now2 rnd2) r2"
  shows "map_of (promises (after (setupIframe_listener E P
            (after (setupIframe_listener E P b2 r1)) r2)))
          = (map_of (promises b0))(p1 \<mapsto> reply E (data r1), p2 \<mapsto> reply E (data r2))
     \<and> map_of (promises (after (setupIframe_listener E P
            (after (setupIframe_listener E P b2 r2)) r1)))
          = (map_of (promises b0))(p1 \<mapsto> reply E (data r1), p2 \<mapsto> reply E (data r2))
     \<and> map_of (promises (after (setupIframe_listener E P b2 r2)))
          = (map_of (promises b0))(p2 \<mapsto> reply E (data r2))
     \<and> map_of (promises b0) p1 = None \<and> map_of (promises b0) p2 = None \<and> p1 \<noteq> p2
     \<and> map_of (pendingExecutions (after (setupIframe_listener E P
            (after (setupIframe_listener E P b2 r1)) r2))) (execution_id now1 rnd1) = None
     \<and> map_of (pendingExecutions (after (setupIframe_listener E P
            (after (setupIframe_listener E P b2 r1)) r2))) (execution_id now2 rnd2) = None
     \<and> pendingExecutions (after (setupIframe_listener E P
            (after (setupIframe_listener E P b2 r2)) r1))
        = pendingExecutions (after (setupIframe_listener E P
            (after (setupIframe_listener E P b2 r1)) r2))"
proof -
  let ?i1 = "execution_id now1 rnd1" and ?i2 = "execution_id now2 rnd2"
  from execute_dispatch_Inr [OF d1] have p1: "p1 = next_promise b0"
    and b1: "b1 = b0\<lparr>posted := posted b0 @ [EXECUTE_CODE code1 ?i1],
              pendingExecutions := AList.update ?i1 p1 (pendingExecutions b0),
              timers := timers b0 @ [(now1 + 30000, ?i1, p1)],
              next_promise := p1 + 1\<rparr>"
    by simp_all
  from execute_dispatch_Inr [OF d2] have p2: "p2 = next_promise b1"
    and b2: "b2 = b1\<lparr>posted := posted b1 @ [EXECUTE_CODE code2 ?i2],
              pendingExecutions := AList.update ?i2 p2 (pendingExecutions b1),
              timers := timers b1 @ [(now2 + 30000, ?i2, p2)],
              next_promise := p2 + 1\<rparr>"
    by simp_all
  have p21: "p2 = p1 + 1" by (simp add: p2 b1)
  then have nq: "p1 \<noteq> p2" by simp
  have pr: "promises b2 = promises b0" by (simp add: b2 b1)
  have q1: "map_of (promises b2) p1 = None"
    using fresh by (simp add: pr p1 fresh_unsettled)
  have q2: "map_of (promises b2) p2 = None"
    using fresh by (simp add: pr p21 p1 fresh_unsettled)
  have g1: "map_of (pendingExecutions b2) ?i1 = Some p1"
    using ids by (simp add: b2 b1 AList.update_conv')
  have g2: "map_of (pendingExecutions b2) ?i2 = Some p2"
    by (simp add: b2 AList.update_conv')
  note a = deliver_two [OF r1 r2 ids g1 g2 q1 q2 nq, of E P]
  note b = deliver_two [OF r2 r1 ids [symmetric] g2 g1 q2 q1 nq [symmetric], of E P]
  have c: "(map_of (promises b0))(p2 \<mapsto> reply E (data r2), p1 \<mapsto> reply E (data r1))
      = (map_of (promises b0))(p1 \<mapsto> reply E (data r1), p2 \<mapsto> reply E (data r2))"
    using nq by (simp add: fun_upd_twist)
  have d: "AList.delete ?i1 (AList.delete ?i2 (pendingExecutions b2))
      = AList.delete ?i2 (AList.delete ?i1 (pendingExecutions b2))"
    by (simp add: AList.delete_eq conj_commute)
  show ?thesis
    using a b c d q1 q2 nq by (simp add: pr AList.delete_conv')
qed


lemma example_ids:
  "execution_id 1000 ''aaaaaaaaa'' = ''exec_1000_aaaaaaaaa''"
  "execution_id 1000 ''bbbbbbbbb'' = ''exec_1000_bbbbbbbbb''"
  by (simp_all add: execution_id_def decimal.simps)

lemma example_dispatches:
  "execute_dispatch example_engine 1000 ''aaaaaaaaa'' (JStr ''return 1'') example_bridge
     = Inr (0, one_pending)"
  "execute_dispatch example_engine 1000 ''bbbbbbbbb'' (JStr ''throw 2'') one_pending
     = Inr (1, two_pending)"
  by (simp_all add: execute_dispatch_def postMessage_def EXECUTE_CODE_def example_ids
      example_bridge_def one_pending_def two_pending_def)

theorem responses_matched_by_id_witness:
  "execute_dispatch example_engine 1000 ''aaaaaaaaa'' (JStr ''return 1'') example_bridge
     = Inr (0, one_pending)
   \<and> execute_dispatch example_engine 1000 ''bbbbbbbbb'' (JStr ''throw 2'') one_pending
     = Inr (1, two_pending)
   \<and> map_of (promises (after (setupIframe_listener example_engine example_page
        (after (setupIframe_listener example_engine example_page two_pending second_error))
        first_result))) 0 = Some (Resolved (JNum 1))
   \<and> map_of (promises (after (setupIframe_listener example_engine example_page
        (after (setupIframe_listener example_engine example_page two_pending second_error))
        first_result))) 1 = Some (Rejected (Exn ''boom'' (JStr ''Error: boom'')))"
proof -
  have fresh: "fresh_promises example_bridge"
    by (simp add: fresh_promises_def example_bridge_def)
  have ids: "execution_id 1000 ''aaaaaaaaa'' \<noteq> execution_id 1000 ''bbbbbbbbb''"
    by (simp add: example_ids)
  have r1: "response_for two_pending (execution_id 1000 ''aaaaaaaaa'') first_result"
    by (simp add: response_for_def answers_def example_ids two_pending_def first_result_def)
  have r2: "response_for two_pending (execution_id 1000 ''bbbbbbbbb'') second_error"
    by (simp add: response_for_def answers_def example_ids two_pending_def second_error_def)
  from responses_matched_by_id [OF fresh example_dispatches ids r1 r2, of example_page]
  have "map_of (promises (after (setupIframe_listener example_engine example_page
        (after (setupIframe_listener example_engine example_page two_pending second_error))
        first_result)))
     = (map_of (promises example_bridge))
         (0 \<mapsto> reply example_engine (data first_result), 1 \<mapsto> reply example_engine (data second_error))"
    by blast
  moreover have "reply example_engine (data first_result) = Resolved (JNum 1)"
    by (simp add: reply_def first_result_def)
  moreover have "reply example_engine (data second_error)
      = Rejected (Exn ''boom'' (JStr ''Error: boom''))"
    by (simp add: reply_def second_error_def new_Error_def error_message_def example_engine_def)
  ultimately show ?thesis
    by (simp add: example_dispatches)
qed

section \<open>execute: the wait for readiness\<close>

lemma await_ready_bounds: "t \<le> 5000 \<Longrightarrow> t \<le> await_ready flag t \<and> await_ready flag t \<le> 5000"
proof (induction flag t rule: await_ready.induct)
  case (1 flag t)
  show ?case
  proof (cases "5000 \<le> t \<or> flag t")
    case True
    with 1 show ?thesis by (subst await_ready.simps, subst (2) await_ready.simps) auto
  next
    case False
    then have step: "await_ready flag t = await_ready flag (t + 50)"
      by (subst await_ready.simps) simp
    show ?thesis
    proof (cases "t + 50 \<le> 5000")
      case True
      with 1 False show ?thesis by (simp add: step)
    next
      case b: False
      then have "await_ready flag (t + 50) = 5000"
        by (subst await_ready.simps) simp
      with 1 False show ?thesis by (simp add: step)
    qed
  qed
qed

lemma await_ready_flag: "await_ready flag t < 5000 \<Longrightarrow> flag (await_ready flag t)"
proof (induction flag t rule: await_ready.induct)
  case (1 flag t)
  show ?case
  proof (cases "5000 \<le> t")
    case True
    with 1 show ?thesis by (subst (asm) await_ready.simps) simp
  next
    case f: False
    show ?thesis
    proof (cases "flag t")
      case True
      with f show ?thesis by (subst await_ready.simps) simp
    next
      case False
      with f have step: "await_ready flag t = await_ready flag (t + 50)"
        by (subst await_ready.simps) simp
      with 1 f False show ?thesis by simp
    qed
  qed
qed

lemma await_ready_first:
  "t + 50 * k < await_ready flag t \<Longrightarrow> \<not> flag (t + 50 * k)"
proof (induction flag t arbitrary: k rule: await_ready.induct)
  case (1 flag t)
  show ?case
  proof (cases "5000 \<le> t \<or> flag t")
    case True
    then have "await_ready flag t \<le> t \<or> await_ready flag t = 5000 \<and> 5000 \<le> t"
      by (subst await_ready.simps, subst (2) await_ready.simps) auto
    with 1 show ?thesis by auto
  next
    case False
    then have step: "await_ready flag t = await_ready flag (t + 50)"
      by (subst await_ready.simps) simp
    show ?thesis
    proof (cases k)
      case 0
      with False show ?thesis by simp
    next
      case (Suc j)
      with 1(2) step have "(t + 50) + 50 * j < await_ready flag (t + 50)" by simp
      with 1(1) False have "\<not> flag ((t + 50) + 50 * j)" by blast
      with Suc show ?thesis by (simp add: add.assoc)
    qed
  qed
qed

lemma await_ready_step: "50 dvd t \<Longrightarrow> 50 dvd await_ready flag t"
proof (induction flag t rule: await_ready.induct)
  case (1 flag t)
  show ?case
  proof (cases "5000 \<le> t \<or> flag t")
    case True
    then have "await_ready flag t = t \<or> await_ready flag t = 5000"
      by (subst await_ready.simps, subst (2) await_ready.simps) auto
    with 1 show ?thesis by auto
  next
    case False
    then have step: "await_ready flag t = await_ready flag (t + 50)"
      by (subst await_ready.simps) simp
    with 1 False show ?thesis by simp
  qed
qed


lemma execute_dispatch_detached:
  assumes "ready b" and "contentWindow b = None"
  shows "execute_dispatch E now rnd code b = Inl (type_error E JNull ''postMessage'')"
  using assms by (simp add: execute_dispatch_def postMessage_def)

lemma execute_dispatch_ready:
  assumes "ready b" and "cloneable code" and "contentWindow b \<noteq> None"
  shows "execute_dispatch E now rnd code b
    = Inr (next_promise b,
        b\<lparr>posted := posted b @ [EXECUTE_CODE code (execution_id now rnd)],
          pendingExecutions :=
            AList.update (execution_id now rnd) (next_promise b) (pendingExecutions b),
          timers := timers b @ [(now + 30000, execution_id now rnd, next_promise b)],
          next_promise := next_promise b + 1\<rparr>)"
  using assms by (auto simp: execute_dispatch_def postMessage_def EXECUTE_CODE_def)

text \<open>
  C4. A call of \<open>execute\<close> made while the flag is not set (the flag, once set, stays
  set: \<open>run_keeps_ready\<close> below) waits: it looks at the flag every 50 ms and goes on at the first look that finds
  it set, at the latest after 5000 ms. If the flag is set at some time within the 5000
  ms, the flag is set when the call goes on, and the call dispatches: it posts
  \<open>EXECUTE_CODE\<close> to the window of the iframe, records the pending execution and arms
  the 30 second timer (with the iframe out of the document there is no window to post
  to, and the dispatch throws the \<open>TypeError\<close> of reading \<open>postMessage\<close> of \<open>null\<close>). If
  the flag is still not set after 5000 ms, the call goes on at 5000 ms and rejects with
  \<open>Sandbox not ready\<close>.
\<close>

theorem execute_waits_for_readiness:
  assumes nr: "\<not> ready (world 0)"
    and mono: "\<forall>s t. s \<le> t \<and> ready (world s) \<longrightarrow> ready (world t)"
  shows "50 \<le> resume_time world \<and> resume_time world \<le> 5000 \<and> 50 dvd resume_time world
     \<and> (\<forall>k. 0 < k \<and> 50 * k < resume_time world \<longrightarrow> \<not> ready (world (50 * k)))
     \<and> ((\<exists>t \<le> 5000. ready (world t)) \<longrightarrow>
           ready (world (resume_time world))
           \<and> execute E world now rnd code
               = execute_dispatch E (now + resume_time world) rnd code (world (resume_time world))
           \<and> (contentWindow (world (resume_time world)) = None \<longrightarrow>
                execute E world now rnd code = Inl (type_error E JNull ''postMessage''))
           \<and> (cloneable code \<and> contentWindow (world (resume_time world)) \<noteq> None \<longrightarrow>
                execute E world now rnd code
                  = Inr (next_promise (world (resume_time world)),
                      (world (resume_time world))
                        \<lparr>posted := posted (world (resume_time world))
                            @ [EXECUTE_CODE code (execution_id (now + resume_time world) rnd)],
                          pendingExecutions :=
                            AList.update (execution_id (now + resume_time world) rnd)
                              (next_promise (world (resume_time world)))
                              (pendingExecutions (world (resume_time world))),
                          timers := timers (world (resume_time world))
                            @ [(now + resume_time world + 30000,
                                execution_id (now + resume_time world) rnd,
                                next_promise (world (resume_time world)))],
                          next_promise := next_promise (world (resume_time world)) + 1\<rparr>)))
     \<and> ((\<forall>t \<le> 5000. \<not> ready (world t)) \<longrightarrow>
           resume_time world = 5000
           \<and> execute E world now rnd code = Inl (new_Error E ''Sandbox not ready''))"
proof -
  let ?flag = "\<lambda>t. ready (world t)"
  have rt: "resume_time world = await_ready ?flag 50"
    using nr by (simp add: resume_time_def)
  have b: "50 \<le> resume_time world \<and> resume_time world \<le> 5000"
    unfolding rt using await_ready_bounds [of 50 ?flag] by simp
  have d: "50 dvd resume_time world"
    unfolding rt by (rule await_ready_step) simp
  have f: "\<not> ready (world (50 * k))" if "0 < k \<and> 50 * k < resume_time world" for k
  proof -
    from that obtain j where k: "k = Suc j" by (cases k) auto
    with that have "50 + 50 * j < await_ready ?flag 50" by (simp add: rt)
    then have "\<not> ready (world (50 + 50 * j))" by (rule await_ready_first)
    with k show ?thesis by simp
  qed
  have r: "ready (world (resume_time world))" if "\<exists>t \<le> 5000. ready (world t)"
  proof (cases "resume_time world < 5000")
    case True
    then show ?thesis
      unfolding rt by (rule await_ready_flag)
  next
    case False
    with b have "resume_time world = 5000" by simp
    moreover from that mono have "ready (world 5000)" by blast
    ultimately show ?thesis by simp
  qed
  have n: "resume_time world = 5000" if "\<forall>t \<le> 5000. \<not> ready (world t)"
  proof (rule ccontr)
    assume "resume_time world \<noteq> 5000"
    with b have lt: "resume_time world < 5000" by simp
    then have "ready (world (resume_time world))"
      unfolding rt by (rule await_ready_flag)
    with that lt show False by simp
  qed
  have e: "execute E world now rnd code
      = execute_dispatch E (now + resume_time world) rnd code (world (resume_time world))"
    by (simp add: execute_def)
  show ?thesis
  proof (intro conjI allI impI)
    show "50 \<le> resume_time world" "resume_time world \<le> 5000" using b by simp_all
    show "50 dvd resume_time world" by (rule d)
  next
    fix k assume "0 < k \<and> 50 * k < resume_time world"
    then show "\<not> ready (world (50 * k))" by (rule f)
  next
    assume "\<exists>t \<le> 5000. ready (world t)"
    then show "ready (world (resume_time world))" by (rule r)
  next
    show "execute E world now rnd code
      = execute_dispatch E (now + resume_time world) rnd code (world (resume_time world))"
      by (rule e)
  next
    assume "\<exists>t \<le> 5000. ready (world t)"
      and "contentWindow (world (resume_time world)) = None"
    then show "execute E world now rnd code = Inl (type_error E JNull ''postMessage'')"
      using r by (simp add: e execute_dispatch_detached)
  next
    assume "\<exists>t \<le> 5000. ready (world t)"
      and "cloneable code \<and> contentWindow (world (resume_time world)) \<noteq> None"
    then show "execute E world now rnd code
                  = Inr (next_promise (world (resume_time world)),
                      (world (resume_time world))
                        \<lparr>posted := posted (world (resume_time world))
                            @ [EXECUTE_CODE code (execution_id (now + resume_time world) rnd)],
                          pendingExecutions :=
                            AList.update (execution_id (now + resume_time world) rnd)
                              (next_promise (world (resume_time world)))
                              (pendingExecutions (world (resume_time world))),
                          timers := timers (world (resume_time world))
                            @ [(now + resume_time world + 30000,
                                execution_id (now + resume_time world) rnd,
                                next_promise (world (resume_time world)))],
                          next_promise := next_promise (world (resume_time world)) + 1\<rparr>)"
      using r by (simp add: e execute_dispatch_ready)
  next
    assume "\<forall>t \<le> 5000. \<not> ready (world t)"
    then show "resume_time world = 5000" by (rule n)
  next
    assume a: "\<forall>t \<le> 5000. \<not> ready (world t)"
    then have "resume_time world = 5000" by (rule n)
    with a have "\<not> ready (world (resume_time world))" by simp
    then show "execute E world now rnd code = Inl (new_Error E ''Sandbox not ready'')"
      by (simp add: e execute_dispatch_def)
  qed
qed

theorem execute_waits_for_readiness_witness:
  "resume_time ready_after_120 = 150
   \<and> execute example_engine ready_after_120 1000 ''aaaaaaaaa'' (JStr ''return 1'')
      = Inr (0, example_bridge
           \<lparr>posted := [EXECUTE_CODE (JStr ''return 1'') ''exec_1150_aaaaaaaaa''],
             pendingExecutions := [(''exec_1150_aaaaaaaaa'', 0)],
             timers := [(31150, ''exec_1150_aaaaaaaaa'', 0)],
             next_promise := 1\<rparr>)
   \<and> resume_time never_ready = 5000
   \<and> execute example_engine never_ready 1000 ''aaaaaaaaa'' (JStr ''return 1'')
      = Inl (Exn ''Sandbox not ready'' (JStr ''Error: Sandbox not ready''))"
proof -
  have nr1: "\<not> ready (ready_after_120 0)"
    by (simp add: ready_after_120_def)
  have mono1: "\<forall>s t. s \<le> t \<and> ready (ready_after_120 s) \<longrightarrow> ready (ready_after_120 t)"
    by (simp add: ready_after_120_def example_bridge_def)
  have nr2: "\<not> ready (never_ready 0)"
    by (simp add: never_ready_def)
  have mono2: "\<forall>s t. s \<le> t \<and> ready (never_ready s) \<longrightarrow> ready (never_ready t)"
    by (simp add: never_ready_def)
  have t1: "resume_time ready_after_120 = 150"
    by (simp add: resume_time_def ready_after_120_def await_ready.simps example_bridge_def)
  have ex: "\<exists>t \<le> 5000. ready (ready_after_120 t)"
    by (rule exI [of _ 120]) (simp add: ready_after_120_def example_bridge_def)
  have no: "\<forall>t \<le> 5000. \<not> ready (never_ready t)"
    by (simp add: never_ready_def)
  have id: "execution_id 1150 ''aaaaaaaaa'' = ''exec_1150_aaaaaaaaa''"
    by (simp add: execution_id_def decimal.simps)
  from execute_waits_for_readiness [OF nr1 mono1, of example_engine 1000 "''aaaaaaaaa''" "JStr ''return 1''"] ex
  have "execute example_engine ready_after_120 1000 ''aaaaaaaaa'' (JStr ''return 1'')
      = execute_dispatch example_engine (1000 + resume_time ready_after_120) ''aaaaaaaaa''
          (JStr ''return 1'') (ready_after_120 (resume_time ready_after_120))"
    by blast
  then have a: "execute example_engine ready_after_120 1000 ''aaaaaaaaa'' (JStr ''return 1'')
      = Inr (0, example_bridge
           \<lparr>posted := [EXECUTE_CODE (JStr ''return 1'') ''exec_1150_aaaaaaaaa''],
             pendingExecutions := [(''exec_1150_aaaaaaaaa'', 0)],
             timers := [(31150, ''exec_1150_aaaaaaaaa'', 0)],
             next_promise := 1\<rparr>)"
    by (simp add: t1 id ready_after_120_def example_bridge_def execute_dispatch_def
        postMessage_def EXECUTE_CODE_def)
  from execute_waits_for_readiness [OF nr2 mono2, of example_engine 1000 "''aaaaaaaaa''" "JStr ''return 1''"] no
  have "resume_time never_ready = 5000
     \<and> execute example_engine never_ready 1000 ''aaaaaaaaa'' (JStr ''return 1'')
         = Inl (new_Error example_engine ''Sandbox not ready'')"
    by blast
  with a t1 show ?thesis
    by (simp add: new_Error_def example_engine_def)
qed

section \<open>execute: the 30 second timeout\<close>

lemma settle_other:
  "q \<noteq> p \<Longrightarrow> map_of (promises (settle q r b)) p = map_of (promises b) p"
  by (simp add: settle_def AList.update_conv' split: option.splits)

lemma settle_settled:
  "map_of (promises b) p = Some r \<Longrightarrow> map_of (promises (settle q r' b)) p = Some r"
  by (cases "q = p") (simp_all add: settle_def AList.update_conv' split: option.splits)

lemma postMessage_frame:
  "contentWindow (after (postMessage E m b)) = contentWindow b
   \<and> pendingExecutions (after (postMessage E m b)) = pendingExecutions b
   \<and> promises (after (postMessage E m b)) = promises b
   \<and> timers (after (postMessage E m b)) = timers b
   \<and> next_promise (after (postMessage E m b)) = next_promise b"
  by (simp add: postMessage_def split: option.splits)

lemma listener_not_response:
  assumes "\<not> (member (data event) ''type'' = JStr ''EXECUTION_RESULT''
         \<or> member (data event) ''type'' = JStr ''EXECUTION_ERROR'')"
  shows "contentWindow (after (setupIframe_listener E P b event)) = contentWindow b
   \<and> pendingExecutions (after (setupIframe_listener E P b event)) = pendingExecutions b
   \<and> promises (after (setupIframe_listener E P b event)) = promises b
   \<and> timers (after (setupIframe_listener E P b event)) = timers b
   \<and> next_promise (after (setupIframe_listener E P b event)) = next_promise b"
  using assms
  by (simp add: setupIframe_listener_def postMessage_frame split: sum.splits option.splits)


lemma execution_response_cases:
  "after (execution_response E b d) = b
   \<or> (\<exists>i q. member d ''id'' = JStr i \<and> map_of (pendingExecutions b) i = Some q
        \<and> (after (execution_response E b d)
              = b\<lparr>pendingExecutions := AList.delete i (pendingExecutions b)\<rparr>
           \<or> (\<exists>r. after (execution_response E b d)
              = settle q r (b\<lparr>pendingExecutions := AList.delete i (pendingExecutions b)\<rparr>))))"
proof (cases "pending_get b (member d ''id'')")
  case None
  then show ?thesis by (simp add: execution_response_def)
next
  case (Some q)
  then obtain i where i: "member d ''id'' = JStr i" and q: "map_of (pendingExecutions b) i = Some q"
    by (auto simp: pending_get_def split: jsval.splits)
  have "after (execution_response E b d)
              = b\<lparr>pendingExecutions := AList.delete i (pendingExecutions b)\<rparr>
           \<or> (\<exists>r. after (execution_response E b d)
              = settle q r (b\<lparr>pendingExecutions := AList.delete i (pendingExecutions b)\<rparr>))"
    using Some i by (auto simp: execution_response_def pending_delete_def)
  with i q show ?thesis by blast
qed

lemma listener_is_response:
  assumes "source event = contentWindow b"
    and "member (data event) ''type'' = JStr ''EXECUTION_RESULT''
         \<or> member (data event) ''type'' = JStr ''EXECUTION_ERROR''"
  shows "setupIframe_listener E P b event = execution_response E b (data event)"
proof -
  from assms(2) have "\<not> nullish (data event)"
    by (auto dest: member_action_not_nullish)
  with assms show ?thesis
    by (auto simp: setupIframe_listener_def)
qed

lemma message_keeps_waiting:
  assumes w: "waiting w ident p due b" and n: "\<not> answers b ident event"
  shows "waiting w ident p due (after (setupIframe_listener E P b event))"
proof (cases "member (data event) ''type'' = JStr ''EXECUTION_RESULT''
         \<or> member (data event) ''type'' = JStr ''EXECUTION_ERROR''")
  case False
  from listener_not_response [OF False, of E P b] w show ?thesis
    by (simp add: waiting_def pending_call_def)
next
  case True
  show ?thesis
  proof (cases "source event = contentWindow b")
    case False
    with w show ?thesis by (simp add: setupIframe_listener_def)
  next
    case s: True
    with True n have ni: "member (data event) ''id'' \<noteq> JStr ident"
      by (simp add: answers_def)
    have l: "setupIframe_listener E P b event = execution_response E b (data event)"
      using s True by (rule listener_is_response)
    from execution_response_cases [of E b "data event"] show ?thesis
    proof (elim disjE exE conjE)
      assume "after (execution_response E b (data event)) = b"
      with w show ?thesis by (simp add: l)
    next
      fix i q
      assume i: "member (data event) ''id'' = JStr i"
        and q: "map_of (pendingExecutions b) i = Some q"
        and a: "after (execution_response E b (data event))
              = b\<lparr>pendingExecutions := AList.delete i (pendingExecutions b)\<rparr>"
      from i ni have "i \<noteq> ident" by simp
      with w show ?thesis
        by (simp add: l a waiting_def pending_call_def AList.delete_conv')
    next
      fix i q r
      assume i: "member (data event) ''id'' = JStr i"
        and q: "map_of (pendingExecutions b) i = Some q"
        and a: "after (execution_response E b (data event))
              = settle q r (b\<lparr>pendingExecutions := AList.delete i (pendingExecutions b)\<rparr>)"
      from i ni have ne: "i \<noteq> ident" by simp
      with w q have "q \<noteq> p" by (auto simp: waiting_def pending_call_def)
      with w ne show ?thesis
        by (simp add: l a waiting_def pending_call_def AList.delete_conv' settle_fields settle_other)
    qed
  qed
qed

lemma message_keeps_timed_out:
  assumes t: "timed_out E w ident p b"
  shows "timed_out E w ident p (after (setupIframe_listener E P b event))"
proof (cases "member (data event) ''type'' = JStr ''EXECUTION_RESULT''
         \<or> member (data event) ''type'' = JStr ''EXECUTION_ERROR''")
  case False
  from listener_not_response [OF False, of E P b] t show ?thesis
    by (simp add: timed_out_def)
next
  case True
  show ?thesis
  proof (cases "source event = contentWindow b")
    case False
    with t show ?thesis by (simp add: setupIframe_listener_def)
  next
    case s: True
    have l: "setupIframe_listener E P b event = execution_response E b (data event)"
      using s True by (rule listener_is_response)
    from execution_response_cases [of E b "data event"] t show ?thesis
      by (auto simp: l timed_out_def AList.delete_conv' settle_fields settle_settled)
  qed
qed

lemma late_response_ignored:
  assumes t: "timed_out E w ident p b" and a: "answers b ident event"
  shows "setupIframe_listener E P b event = Returned b"
proof -
  from a have "setupIframe_listener E P b event = execution_response E b (data event)"
    by (intro listener_is_response) (simp_all add: answers_def)
  moreover from a t have "pending_get b (member (data event) ''id'') = None"
    by (simp add: answers_def timed_out_def pending_get_def)
  ultimately show ?thesis
    by (simp add: execution_response_def)
qed


lemma execution_timeout_fields:
  "contentWindow (execution_timeout E i q b) = contentWindow b"
  "timers (execution_timeout E i q b) = timers b"
  "next_promise (execution_timeout E i q b) = next_promise b"
  by (simp_all add: execution_timeout_def settle_fields)

lemma timeout_other:
  assumes "pending_call w ident p b" and "i \<noteq> ident" and "q \<noteq> p"
  shows "pending_call w ident p (execution_timeout E i q b)"
  using assms
  by (simp add: pending_call_def execution_timeout_def settle_fields settle_other
      AList.delete_conv')

lemma timeout_ours:
  assumes "pending_call w ident p b"
  shows "timed_out E w ident p (execution_timeout E ident p b)"
  using assms
  by (simp add: pending_call_def timed_out_def execution_timeout_def settle_fields
      promises_settle AList.delete_conv')

lemma timeout_keeps_timed_out:
  assumes "timed_out E w ident p b"
  shows "timed_out E w ident p (execution_timeout E i q b)"
  using assms
  by (simp add: timed_out_def execution_timeout_def settle_fields settle_settled
      AList.delete_conv')

lemma run_timers_fields:
  "contentWindow (run_timers E ts b) = contentWindow b
   \<and> timers (run_timers E ts b) = timers b
   \<and> next_promise (run_timers E ts b) = next_promise b"
  by (induction ts arbitrary: b) (simp_all add: run_timers_def execution_timeout_fields)

lemma run_timers_timed_out:
  "timed_out E w ident p b \<Longrightarrow> timed_out E w ident p (run_timers E ts b)"
  by (induction ts arbitrary: b) (simp_all add: run_timers_def timeout_keeps_timed_out)

lemma run_timers_others:
  assumes "pending_call w ident p b"
    and "\<forall>x \<in> set ts. fst (snd x) \<noteq> ident \<and> snd (snd x) \<noteq> p"
  shows "pending_call w ident p (run_timers E ts b)"
  using assms
  by (induction ts arbitrary: b) (simp_all add: run_timers_def timeout_other)

lemma run_timers_ours:
  assumes "pending_call w ident p b"
    and "\<forall>x \<in> set ts. x = (due, ident, p) \<or> fst (snd x) \<noteq> ident \<and> snd (snd x) \<noteq> p"
    and "(due, ident, p) \<in> set ts"
  shows "timed_out E w ident p (run_timers E ts b)"
  using assms
proof (induction ts arbitrary: b)
  case Nil
  then show ?case by simp
next
  case (Cons x ts)
  have step: "run_timers E (x # ts) b = run_timers E ts (execution_timeout E (fst (snd x)) (snd (snd x)) b)"
    by (simp add: run_timers_def)
  show ?case
  proof (cases "x = (due, ident, p)")
    case True
    with Cons.prems(1) have "timed_out E w ident p (execution_timeout E (fst (snd x)) (snd (snd x)) b)"
      by (simp add: timeout_ours)
    then show ?thesis
      unfolding step by (rule run_timers_timed_out)
  next
    case False
    with Cons.prems have o: "fst (snd x) \<noteq> ident \<and> snd (snd x) \<noteq> p" and m: "(due, ident, p) \<in> set ts"
      by auto
    with Cons.prems(1) have "pending_call w ident p (execution_timeout E (fst (snd x)) (snd (snd x)) b)"
      by (simp add: timeout_other)
    with Cons.prems(2) m show ?thesis
      unfolding step by (intro Cons.IH) simp_all
  qed
qed

lemma clock_keeps_waiting:
  assumes w: "waiting w ident p due b" and t: "t < due"
  shows "waiting w ident p due (elapse E t b)"
proof -
  let ?b = "b\<lparr>timers := filter (\<lambda>x. t < fst x) (timers b)\<rparr>"
  let ?ts = "sort_key fst (filter (\<lambda>x. fst x \<le> t) (timers b))"
  from w have pc: "pending_call w ident p ?b"
    by (simp add: waiting_def pending_call_def)
  have "\<forall>x \<in> set ?ts. fst (snd x) \<noteq> ident \<and> snd (snd x) \<noteq> p"
    using w t by (auto simp: waiting_def)
  with pc have "pending_call w ident p (run_timers E ?ts ?b)"
    by (rule run_timers_others)
  moreover have "timers (run_timers E ?ts ?b) = filter (\<lambda>x. t < fst x) (timers b)"
    by (simp add: run_timers_fields)
  ultimately show ?thesis
    using w t by (auto simp: waiting_def elapse_def)
qed

lemma clock_times_out:
  assumes w: "waiting w ident p due b" and t: "due \<le> t"
  shows "timed_out E w ident p (elapse E t b)"
proof -
  let ?b = "b\<lparr>timers := filter (\<lambda>x. t < fst x) (timers b)\<rparr>"
  let ?ts = "sort_key fst (filter (\<lambda>x. fst x \<le> t) (timers b))"
  from w have pc: "pending_call w ident p ?b"
    by (simp add: waiting_def pending_call_def)
  have a: "\<forall>x \<in> set ?ts. x = (due, ident, p) \<or> fst (snd x) \<noteq> ident \<and> snd (snd x) \<noteq> p"
    using w by (auto simp: waiting_def)
  have m: "(due, ident, p) \<in> set ?ts"
    using w t by (simp add: waiting_def)
  from pc a m show ?thesis
    unfolding elapse_def by (rule run_timers_ours)
qed

lemma clock_keeps_timed_out:
  "timed_out E w ident p b \<Longrightarrow> timed_out E w ident p (elapse E t b)"
  unfolding elapse_def
  by (rule run_timers_timed_out) (simp add: timed_out_def)

lemma call_keeps_waiting:
  assumes w: "waiting w ident p due b" and i: "execution_id now rnd \<noteq> ident"
  shows "waiting w ident p due (occur E P b (Call now rnd code))"
proof (cases "execute_dispatch E now rnd code b")
  case (Inl e)
  with w show ?thesis by simp
next
  case (Inr r)
  then have "execute_dispatch E now rnd code b = Inr (fst r, snd r)" by simp
  from execute_dispatch_Inr [OF this] have q: "fst r = next_promise b"
    and b': "snd r = b\<lparr>posted := posted b @ [EXECUTE_CODE code (execution_id now rnd)],
              pendingExecutions := AList.update (execution_id now rnd) (fst r) (pendingExecutions b),
              timers := timers b @ [(now + 30000, execution_id now rnd, fst r)],
              next_promise := fst r + 1\<rparr>"
    by simp_all
  from w q have "fst r \<noteq> p" by (simp add: waiting_def pending_call_def)
  with w i q have "waiting w ident p due (snd r)"
    by (subst b') (auto simp: waiting_def pending_call_def AList.update_conv')
  with Inr show ?thesis by simp
qed

lemma call_keeps_timed_out:
  assumes t: "timed_out E w ident p b" and i: "execution_id now rnd \<noteq> ident"
  shows "timed_out E w ident p (occur E P b (Call now rnd code))"
proof (cases "execute_dispatch E now rnd code b")
  case (Inl e)
  with t show ?thesis by simp
next
  case (Inr r)
  then have "execute_dispatch E now rnd code b = Inr (fst r, snd r)" by simp
  from execute_dispatch_Inr [OF this] have
    b': "snd r = b\<lparr>posted := posted b @ [EXECUTE_CODE code (execution_id now rnd)],
              pendingExecutions := AList.update (execution_id now rnd) (fst r) (pendingExecutions b),
              timers := timers b @ [(now + 30000, execution_id now rnd, fst r)],
              next_promise := fst r + 1\<rparr>"
    by simp
  from t i have "timed_out E w ident p (snd r)"
    by (subst b') (auto simp: timed_out_def AList.update_conv')
  with Inr show ?thesis by simp
qed

lemma answers_window:
  "contentWindow b = contentWindow b' \<Longrightarrow> answers b ident event = answers b' ident event"
  by (simp add: answers_def)

lemma occur_keeps_waiting:
  assumes w: "waiting (contentWindow b0) ident p due b" and u: "undisturbed b0 ident due x"
  shows "waiting (contentWindow b0) ident p due (occur E P b x)"
proof (cases x)
  case (Message event)
  from w have "contentWindow b0 = contentWindow b" by (simp add: waiting_def pending_call_def)
  then have "answers b0 ident event = answers b ident event" by (rule answers_window)
  with u Message have n: "\<not> answers b ident event" by simp
  have "waiting (contentWindow b0) ident p due (after (setupIframe_listener E P b event))"
    using w n by (rule message_keeps_waiting)
  then show ?thesis unfolding Message by simp
next
  case (Clock t)
  with u have "t < due" by simp
  with w have "waiting (contentWindow b0) ident p due (elapse E t b)"
    by (rule clock_keeps_waiting)
  then show ?thesis unfolding Clock by simp
next
  case (Call now rnd code)
  with u have "execution_id now rnd \<noteq> ident" by simp
  with w show ?thesis unfolding Call by (rule call_keeps_waiting)
qed

lemma occur_keeps_timed_out:
  assumes t: "timed_out E w ident p b" and u: "other_call ident x"
  shows "timed_out E w ident p (occur E P b x)"
proof (cases x)
  case (Message event)
  have "timed_out E w ident p (after (setupIframe_listener E P b event))"
    using t by (rule message_keeps_timed_out)
  then show ?thesis unfolding Message by simp
next
  case (Clock t')
  have "timed_out E w ident p (elapse E t' b)"
    using t by (rule clock_keeps_timed_out)
  then show ?thesis unfolding Clock by simp
next
  case (Call now rnd code)
  with u have "execution_id now rnd \<noteq> ident" by simp
  with t show ?thesis unfolding Call by (rule call_keeps_timed_out)
qed

lemma run_keeps_waiting:
  assumes "waiting (contentWindow b0) ident p due b"
    and "\<forall>x \<in> set occs. undisturbed b0 ident due x"
  shows "waiting (contentWindow b0) ident p due (run E P b occs)"
  using assms
proof (induction occs arbitrary: b)
  case Nil
  then show ?case by (simp add: run_def)
next
  case (Cons x occs)
  then have "waiting (contentWindow b0) ident p due (occur E P b x)"
    by (intro occur_keeps_waiting) simp_all
  then have "waiting (contentWindow b0) ident p due (run E P (occur E P b x) occs)"
    using Cons.prems(2) by (intro Cons.IH) simp_all
  then show ?case by (simp add: run_def)
qed

lemma run_keeps_timed_out:
  assumes "timed_out E w ident p b" and "\<forall>x \<in> set occs. other_call ident x"
  shows "timed_out E w ident p (run E P b occs)"
  using assms
proof (induction occs arbitrary: b)
  case Nil
  then show ?case by (simp add: run_def)
next
  case (Cons x occs)
  then have "timed_out E w ident p (occur E P b x)"
    by (intro occur_keeps_timed_out) simp_all
  then have "timed_out E w ident p (run E P (occur E P b x) occs)"
    using Cons.prems(2) by (intro Cons.IH) simp_all
  then show ?case by (simp add: run_def)
qed

lemma dispatch_fields:
  assumes d: "execute_dispatch E now rnd code b = Inr (p, b1)"
  shows "p = next_promise b"
    and "contentWindow b1 = contentWindow b"
    and "pendingExecutions b1 = AList.update (execution_id now rnd) p (pendingExecutions b)"
    and "promises b1 = promises b"
    and "timers b1 = timers b @ [(now + 30000, execution_id now rnd, p)]"
    and "next_promise b1 = p + 1"
proof -
  from execute_dispatch_Inr [OF d] have p: "p = next_promise b"
    and b1: "b1 = b\<lparr>posted := posted b @ [EXECUTE_CODE code (execution_id now rnd)],
              pendingExecutions := AList.update (execution_id now rnd) p (pendingExecutions b),
              timers := timers b @ [(now + 30000, execution_id now rnd, p)],
              next_promise := p + 1\<rparr>"
    by blast+
  show "p = next_promise b" by (rule p)
  show "contentWindow b1 = contentWindow b" by (subst b1) simp
  show "pendingExecutions b1 = AList.update (execution_id now rnd) p (pendingExecutions b)"
    by (subst b1) simp
  show "promises b1 = promises b" by (subst b1) simp
  show "timers b1 = timers b @ [(now + 30000, execution_id now rnd, p)]" by (subst b1) simp
  show "next_promise b1 = p + 1" by (subst b1) simp
qed

lemma dispatch_waiting:
  assumes fresh: "fresh_promises b"
    and newid: "\<forall>x \<in> set (timers b). fst (snd x) \<noteq> execution_id now rnd"
    and d: "execute_dispatch E now rnd code b = Inr (p, b1)"
  shows "waiting (contentWindow b) (execution_id now rnd) p (now + 30000) b1"
proof -
  define i where "i = execution_id now rnd"
  note f = dispatch_fields [OF d, folded i_def]
  note p = f(1) and cw = f(2) and pe = f(3) and pr = f(4) and ti = f(5) and np = f(6)
  have un: "map_of (promises b) p = None"
    using fresh by (rule fresh_unsettled) (simp add: p)
  have only: "j = i" if "map_of (AList.update i p (pendingExecutions b)) j = Some p" for j
  proof (rule ccontr)
    assume "j \<noteq> i"
    with that have "map_of (pendingExecutions b) j = Some p" by (simp add: AList.update_conv')
    then have "(j, p) \<in> set (pendingExecutions b)" by (rule map_of_SomeD)
    with fresh have "snd (j, p) < next_promise b" unfolding fresh_promises_def by blast
    then show False by (simp add: p)
  qed
  have tim: "fst (snd x) \<noteq> i \<and> snd (snd x) \<noteq> p" if "x \<in> set (timers b)" for x
  proof -
    from that newid have "fst (snd x) \<noteq> i" by (simp add: i_def)
    moreover from that fresh have "snd (snd x) < next_promise b" unfolding fresh_promises_def by blast
    ultimately show ?thesis by (simp add: p)
  qed
  have "map_of (pendingExecutions b1) i = Some p"
    by (simp add: pe AList.update_conv')
  moreover have "map_of (promises b1) p = None"
    using un by (simp add: pr)
  moreover have "\<forall>j. map_of (pendingExecutions b1) j = Some p \<longrightarrow> j = i"
    using only unfolding pe by blast
  moreover have "p < next_promise b1"
    by (simp add: np)
  ultimately have "pending_call (contentWindow b) i p b1"
    unfolding pending_call_def using cw by blast
  moreover have "(now + 30000, i, p) \<in> set (timers b1)"
    by (simp add: ti)
  moreover have "\<forall>x \<in> set (timers b1). fst (snd x) = i \<or> snd (snd x) = p \<longrightarrow> x = (now + 30000, i, p)"
  proof
    fix x assume "x \<in> set (timers b1)"
    then have "x \<in> set (timers b) \<or> x = (now + 30000, i, p)"
      by (auto simp: ti)
    with tim show "fst (snd x) = i \<or> snd (snd x) = p \<longrightarrow> x = (now + 30000, i, p)"
      by blast
  qed
  ultimately show ?thesis
    unfolding i_def [symmetric] waiting_def by blast
qed

text \<open>
  C2. A call of \<open>execute\<close> is dispatched at time \<open>now\<close> with a new id. While no response
  with its id arrives and the clock is before \<open>now + 30000\<close>, whatever else happens
  (other messages, other timers, other calls), the call stays pending with its record
  in the table and its timer armed. When the clock reaches \<open>now + 30000\<close> or more, the
  call is rejected with \<open>Execution timeout\<close> and its record is removed. From then on,
  whatever happens short of a new call with the same id, the promise stays rejected,
  and a response with that id changes nothing: the listener returns the bridge as it
  was.
\<close>

theorem unanswered_execution_times_out:
  assumes fresh: "fresh_promises b"
    and newid: "\<forall>x \<in> set (timers b). fst (snd x) \<noteq> execution_id now rnd"
    and d: "execute_dispatch E now rnd code b = Inr (p, b1)"
    and quiet: "\<forall>x \<in> set occs. undisturbed b (execution_id now rnd) (now + 30000) x"
    and T: "now + 30000 \<le> T"
    and later: "\<forall>x \<in> set afterwards. other_call (execution_id now rnd) x"
    and late: "answers b (execution_id now rnd) late"
  shows "map_of (promises (run E P b1 occs)) p = None
     \<and> map_of (pendingExecutions (run E P b1 occs)) (execution_id now rnd) = Some p
     \<and> (now + 30000, execution_id now rnd, p) \<in> set (timers (run E P b1 occs))
     \<and> map_of (promises (elapse E T (run E P b1 occs))) p
          = Some (Rejected (new_Error E ''Execution timeout''))
     \<and> map_of (pendingExecutions (elapse E T (run E P b1 occs))) (execution_id now rnd) = None
     \<and> map_of (promises (run E P (elapse E T (run E P b1 occs)) afterwards)) p
          = Some (Rejected (new_Error E ''Execution timeout''))
     \<and> setupIframe_listener E P (run E P (elapse E T (run E P b1 occs)) afterwards) late
          = Returned (run E P (elapse E T (run E P b1 occs)) afterwards)"
proof -
  let ?i = "execution_id now rnd"
  let ?w = "contentWindow b"
  have "waiting ?w ?i p (now + 30000) b1"
    using fresh newid d by (rule dispatch_waiting)
  then have w: "waiting ?w ?i p (now + 30000) (run E P b1 occs)"
    using quiet by (rule run_keeps_waiting)
  then have t: "timed_out E ?w ?i p (elapse E T (run E P b1 occs))"
    using T by (rule clock_times_out)
  then have t': "timed_out E ?w ?i p (run E P (elapse E T (run E P b1 occs)) afterwards)"
    using later by (rule run_keeps_timed_out)
  then have "contentWindow (run E P (elapse E T (run E P b1 occs)) afterwards) = contentWindow b"
    by (simp add: timed_out_def)
  with late have "answers (run E P (elapse E T (run E P b1 occs)) afterwards) ?i late"
    by (simp add: answers_def)
  with t' have "setupIframe_listener E P (run E P (elapse E T (run E P b1 occs)) afterwards) late
          = Returned (run E P (elapse E T (run E P b1 occs)) afterwards)"
    by (rule late_response_ignored)
  with w t t' show ?thesis
    by (simp add: waiting_def pending_call_def timed_out_def)
qed


theorem unanswered_execution_times_out_witness:
  "map_of (promises (run example_engine example_page one_pending quiet_half_minute)) 0 = None
   \<and> map_of (promises (elapse example_engine 31000
          (run example_engine example_page one_pending quiet_half_minute))) 0
        = Some (Rejected (Exn ''Execution timeout'' (JStr ''Error: Execution timeout'')))
   \<and> map_of (pendingExecutions (elapse example_engine 31000
          (run example_engine example_page one_pending quiet_half_minute))) ''exec_1000_aaaaaaaaa''
        = None
   \<and> setupIframe_listener example_engine example_page
        (run example_engine example_page
          (elapse example_engine 31000
            (run example_engine example_page one_pending quiet_half_minute)) [])
        first_result
      = Returned (run example_engine example_page
          (elapse example_engine 31000
            (run example_engine example_page one_pending quiet_half_minute)) [])"
proof -
  have fresh: "fresh_promises example_bridge"
    by (simp add: fresh_promises_def example_bridge_def)
  have newid: "\<forall>x \<in> set (timers example_bridge). fst (snd x) \<noteq> execution_id 1000 ''aaaaaaaaa''"
    by (simp add: example_bridge_def)
  have quiet: "\<forall>x \<in> set quiet_half_minute.
      undisturbed example_bridge (execution_id 1000 ''aaaaaaaaa'') (1000 + 30000) x"
    by (simp add: quiet_half_minute_def answers_def example_ids second_error_def
        execution_id_def decimal.simps)
  have T: "(1000::nat) + 30000 \<le> 31000" by simp
  have later: "\<forall>x \<in> set []. other_call (execution_id 1000 ''aaaaaaaaa'') x" by simp
  have late: "answers example_bridge (execution_id 1000 ''aaaaaaaaa'') first_result"
    by (simp add: answers_def example_ids first_result_def example_bridge_def)
  from unanswered_execution_times_out [OF fresh newid example_dispatches(1) quiet T later late,
      of example_page]
  show ?thesis
    by (simp add: example_ids new_Error_def example_engine_def)
qed

section \<open>The readiness flag is never reset\<close>

text \<open>
  Nothing that happens to the bridge clears the flag: over time it is monotone, as the
  wait for readiness supposes.
\<close>

lemma postMessage_ready: "ready (after (postMessage E m b)) = ready b"
  by (simp add: postMessage_def split: option.splits)

lemma execution_response_ready: "ready (after (execution_response E b d)) = ready b"
  using execution_response_cases [of E b d]
  by (auto simp: settle_fields)

lemma listener_keeps_ready:
  assumes "ready b"
  shows "ready (after (setupIframe_listener E P b event))"
proof (cases "member (data event) ''type'' = JStr ''EXECUTION_RESULT''
         \<or> member (data event) ''type'' = JStr ''EXECUTION_ERROR''")
  case True
  show ?thesis
  proof (cases "source event = contentWindow b")
    case False
    with assms show ?thesis by (simp add: setupIframe_listener_def)
  next
    case s: True
    have "setupIframe_listener E P b event = execution_response E b (data event)"
      using s True by (rule listener_is_response)
    with assms show ?thesis by (simp add: execution_response_ready)
  qed
next
  case False
  with assms show ?thesis
    by (simp add: setupIframe_listener_def postMessage_ready split: sum.splits option.splits)
qed

lemma execution_timeout_ready: "ready (execution_timeout E i q b) = ready b"
  by (simp add: execution_timeout_def settle_fields)

lemma run_timers_ready: "ready (run_timers E ts b) = ready b"
  by (induction ts arbitrary: b) (simp_all add: run_timers_def execution_timeout_ready)

lemma occur_keeps_ready:
  assumes "ready b"
  shows "ready (occur E P b x)"
proof (cases x)
  case (Message event)
  with assms show ?thesis by (simp add: listener_keeps_ready)
next
  case (Clock t)
  with assms show ?thesis by (simp add: elapse_def run_timers_ready)
next
  case (Call now rnd code)
  show ?thesis
  proof (cases "execute_dispatch E now rnd code b")
    case (Inl e)
    with assms Call show ?thesis by simp
  next
    case (Inr r)
    then have "execute_dispatch E now rnd code b = Inr (fst r, snd r)" by simp
    from execute_dispatch_Inr [OF this] assms have "ready (snd r)"
      by (elim conjE) (erule ssubst, simp)
    with Inr Call show ?thesis by simp
  qed
qed

lemma run_keeps_ready: "ready b \<Longrightarrow> ready (run E P b occs)"
  by (induction occs arbitrary: b) (simp_all add: run_def occur_keeps_ready)

section \<open>The promises of a bridge are numbered in order\<close>

text \<open>
  Every bridge that the constructor and any sequence of occurrences produce has its
  promises numbered below \<open>next_promise\<close>, as the theorems on \<open>execute\<close> suppose.
\<close>

lemma update_set: "set (AList.update k v l) \<subseteq> insert (k, v) (set l)"
  by (induction l) auto

lemma delete_set: "set (AList.delete k l) \<subseteq> set l"
  by (auto simp: AList.delete_eq)

lemma fresh_constructor: "fresh_promises (constructor w)"
  by (simp add: fresh_promises_def constructor_def)

lemma fresh_settle:
  assumes "fresh_promises b" and "q < next_promise b"
  shows "fresh_promises (settle q r b)"
proof (cases "map_of (promises b) q")
  case None
  have "fst x < next_promise b" if "x \<in> set (AList.update q r (promises b))" for x
  proof -
    from that update_set have "x = (q, r) \<or> x \<in> set (promises b)" by fastforce
    with assms show ?thesis by (auto simp: fresh_promises_def)
  qed
  with assms None show ?thesis
    by (simp add: fresh_promises_def settle_def)
next
  case (Some a)
  with assms show ?thesis by (simp add: settle_def)
qed

lemma fresh_delete:
  assumes "fresh_promises b"
  shows "fresh_promises (b\<lparr>pendingExecutions := AList.delete i (pendingExecutions b)\<rparr>)"
  using assms delete_set [of i "pendingExecutions b"]
  by (auto simp: fresh_promises_def)

lemma pending_below:
  assumes "fresh_promises b" and "map_of (pendingExecutions b) i = Some q"
  shows "q < next_promise b"
proof -
  from assms(2) have "(i, q) \<in> set (pendingExecutions b)" by (rule map_of_SomeD)
  with assms(1) have "snd (i, q) < next_promise b" unfolding fresh_promises_def by blast
  then show ?thesis by simp
qed

lemma fresh_listener:
  assumes f: "fresh_promises b"
  shows "fresh_promises (after (setupIframe_listener E P b event))"
proof (cases "member (data event) ''type'' = JStr ''EXECUTION_RESULT''
         \<or> member (data event) ''type'' = JStr ''EXECUTION_ERROR''")
  case False
  from listener_not_response [OF False, of E P b] f show ?thesis
    by (simp add: fresh_promises_def)
next
  case True
  show ?thesis
  proof (cases "source event = contentWindow b")
    case False
    with f show ?thesis by (simp add: setupIframe_listener_def)
  next
    case s: True
    have l: "setupIframe_listener E P b event = execution_response E b (data event)"
      using s True by (rule listener_is_response)
    from execution_response_cases [of E b "data event"] show ?thesis
    proof (elim disjE exE conjE)
      assume "after (execution_response E b (data event)) = b"
      with f show ?thesis by (simp add: l)
    next
      fix i q
      assume "after (execution_response E b (data event))
              = b\<lparr>pendingExecutions := AList.delete i (pendingExecutions b)\<rparr>"
      with f show ?thesis by (simp add: l fresh_delete)
    next
      fix i q r
      assume q: "map_of (pendingExecutions b) i = Some q"
        and a: "after (execution_response E b (data event))
              = settle q r (b\<lparr>pendingExecutions := AList.delete i (pendingExecutions b)\<rparr>)"
      from f q have "q < next_promise b" by (rule pending_below)
      with f show ?thesis by (simp add: l a fresh_settle fresh_delete)
    qed
  qed
qed

lemma fresh_timeout:
  assumes "fresh_promises b" and "q < next_promise b"
  shows "fresh_promises (execution_timeout E i q b)"
  using assms by (simp add: execution_timeout_def fresh_settle fresh_delete)

lemma fresh_run_timers:
  assumes "fresh_promises b" and "\<forall>x \<in> set ts. snd (snd x) < next_promise b"
  shows "fresh_promises (run_timers E ts b)"
  using assms
proof (induction ts arbitrary: b)
  case Nil
  then show ?case by (simp add: run_timers_def)
next
  case (Cons x ts)
  have step: "run_timers E (x # ts) b = run_timers E ts (execution_timeout E (fst (snd x)) (snd (snd x)) b)"
    by (simp add: run_timers_def)
  from Cons.prems have "fresh_promises (execution_timeout E (fst (snd x)) (snd (snd x)) b)"
    by (intro fresh_timeout) simp_all
  then show ?case
    unfolding step using Cons.prems(2) by (intro Cons.IH) (simp_all add: execution_timeout_fields)
qed

lemma fresh_elapse:
  assumes "fresh_promises b"
  shows "fresh_promises (elapse E t b)"
  unfolding elapse_def
  using assms by (intro fresh_run_timers) (auto simp: fresh_promises_def)

lemma fresh_call:
  assumes f: "fresh_promises b" and d: "execute_dispatch E now rnd code b = Inr (p, b1)"
  shows "fresh_promises b1"
proof -
  note g = dispatch_fields [OF d]
  have "fst x < next_promise b1" if "x \<in> set (promises b1)" for x
    using that f by (auto simp: g fresh_promises_def)
  moreover have "snd x < next_promise b1" if "x \<in> set (pendingExecutions b1)" for x
  proof -
    from that update_set have "x = (execution_id now rnd, p) \<or> x \<in> set (pendingExecutions b)"
      unfolding g by fastforce
    with f show ?thesis by (auto simp: g fresh_promises_def)
  qed
  moreover have "snd (snd x) < next_promise b1" if "x \<in> set (timers b1)" for x
    using that f by (auto simp: g fresh_promises_def)
  ultimately show ?thesis
    unfolding fresh_promises_def by blast
qed

lemma fresh_occur:
  assumes "fresh_promises b"
  shows "fresh_promises (occur E P b x)"
proof (cases x)
  case (Message event)
  with assms show ?thesis by (simp add: fresh_listener)
next
  case (Clock t)
  with assms show ?thesis by (simp add: fresh_elapse)
next
  case (Call now rnd code)
  show ?thesis
  proof (cases "execute_dispatch E now rnd code b")
    case (Inl e)
    with assms Call show ?thesis by simp
  next
    case (Inr r)
    then have "execute_dispatch E now rnd code b = Inr (fst r, snd r)" by simp
    with assms have "fresh_promises (snd r)" by (rule fresh_call)
    with Inr Call show ?thesis by simp
  qed
qed

lemma fresh_run: "fresh_promises b \<Longrightarrow> fresh_promises (run E P b occs)"
  by (induction occs arbitrary: b) (simp_all add: run_def fresh_occur)

lemma fresh_reachable: "fresh_promises (run E P (constructor w) occs)"
  by (rule fresh_run) (rule fresh_constructor)

end
